theory Spec2Isabelle
  imports Main
begin

section \<open>The event package: data model\<close>

text \<open>
  A shallow embedding of \<^verbatim>\<open>event/event.go\<close>. Go structs are records, the \<^verbatim>\<open>error\<close>
  results are values of the datatype \<open>err\<close> (\<open>None\<close> is Go's \<^verbatim>\<open>nil\<close>), pointer
  receivers that are mutated are returned updated, and the events collection is an
  explicit component of the state that every operation takes and returns.

  Go's \<^verbatim>\<open>int\<close>, \<^verbatim>\<open>time.Time\<close> and \<^verbatim>\<open>time.Duration\<close> are integers here: the code only compares
  them and adds or subtracts a duration once, far from the range where 64 bits wrap.

  Field names that Go qualifies by their struct and that would clash in one name space
  carry the struct's name as a prefix (\<open>Target_Name\<close>, \<open>kind_Name\<close>, \<open>Owner_Name\<close>).
\<close>

type_synonym time = int
  \<comment> \<open>\<^verbatim>\<open>time.Time\<close> in UTC as nanoseconds; \<open>0\<close> is the zero time (\<^verbatim>\<open>IsZero\<close>).\<close>
type_synonym duration = int
  \<comment> \<open>\<^verbatim>\<open>time.Duration\<close>: nanoseconds.\<close>
type_synonym ObjectId = string
  \<comment> \<open>\<^verbatim>\<open>bson.ObjectId\<close> is a Go string type; the zero value is the empty string.\<close>
type_synonym ownerType = string
type_synonym kindType = string

definition lockUpdateInterval :: duration where
  "lockUpdateInterval = 30 * 1000000000"

definition lockExpireTimeout :: duration where
  "lockExpireTimeout = 5 * 60 * 1000000000"

definition OwnerTypeUser :: ownerType where "OwnerTypeUser = ''user''"
definition OwnerTypeApp :: ownerType where "OwnerTypeApp = ''app''"
definition OwnerTypeInternal :: ownerType where "OwnerTypeInternal = ''internal''"

definition KindTypePermission :: kindType where "KindTypePermission = ''permission''"
definition KindTypeInternal :: kindType where "KindTypeInternal = ''internal''"

text \<open>Values of type \<^verbatim>\<open>interface{}\<close> (custom data, query values) as BSON values.\<close>

datatype bval =
    BNil
  | BBool bool
  | BInt int
  | BStr string
  | BTime time
  | BDoc "(string \<times> bval) list"
  | BArr "bval list"

record Target =
  Target_Name :: string
  Target_Value :: string

definition Target_IsValid :: "Target \<Rightarrow> bool" where
  "Target_IsValid t \<longleftrightarrow> Target_Name t \<noteq> [] \<and> Target_Value t \<noteq> []"

definition Target_zero :: Target where
  "Target_zero = \<lparr>Target_Name = [], Target_Value = []\<rparr>"

record eventId =
  eventId_Target :: Target
  ObjId :: ObjectId

text \<open>
  The value of the \<^verbatim>\<open>_id\<close> field in the store: \<^verbatim>\<open>eventId.GetBSON\<close> writes the object id
  when it is not empty, and the target's ordered document otherwise; \<^verbatim>\<open>SetBSON\<close> reads a
  document back into the target and anything else into the object id.
\<close>

datatype bson_id = IdDoc Target | IdObj ObjectId

definition eventId_GetBSON :: "eventId \<Rightarrow> bson_id" where
  "eventId_GetBSON eid =
     (if length (ObjId eid) \<noteq> 0 then IdObj (ObjId eid) else IdDoc (eventId_Target eid))"

definition eventId_SetBSON :: "bson_id \<Rightarrow> eventId" where
  "eventId_SetBSON raw =
     (case raw of
        IdDoc t \<Rightarrow> \<lparr>eventId_Target = t, ObjId = []\<rparr>
      | IdObj oid \<Rightarrow> \<lparr>eventId_Target = Target_zero, ObjId = oid\<rparr>)"

record cancelInfo =
  cancel_Owner :: string
  cancel_StartTime :: time
  AckTime :: time
  Reason :: string
  Asked :: bool
  Canceled :: bool

definition cancelInfo_zero :: cancelInfo where
  "cancelInfo_zero =
     \<lparr>cancel_Owner = [], cancel_StartTime = 0, AckTime = 0, Reason = [],
      Asked = False, Canceled = False\<rparr>"

record Owner =
  Owner_Type :: ownerType
  Owner_Name :: string

record kind =
  kind_Type :: kindType
  kind_Name :: string

record ThrottlingSpec =
  TargetName :: string
  KindName :: string
  Spec_Max :: int
  Spec_Time :: duration

record eventData =
  ID :: eventId
  UniqueID :: ObjectId
  StartTime :: time
  EndTime :: time
  Target :: Target
  StartCustomData :: bval
  EndCustomData :: bval
  OtherCustomData :: bval
  Kind :: kind
  Owner :: Owner
  Cancelable :: bool
  Running :: bool
  LockUpdateTime :: time
  Error :: string
  Log :: string
  CancelInfo :: cancelInfo
  RemoveDate :: time

text \<open>
  \<^verbatim>\<open>Event\<close> embeds \<^verbatim>\<open>eventData\<close> (the field \<open>Event_eventData\<close>; Go promotes its
  fields, so \<^verbatim>\<open>e.Running\<close> is \<open>Running (Event_eventData e)\<close>) and adds the log buffer. The
  optional external log writer only receives copies of what \<^verbatim>\<open>Logf\<close> writes and is left
  out.
\<close>

record Event =
  Event_eventData :: eventData
  logBuffer :: string

definition Event_of :: "eventData \<Rightarrow> Event" where
  \<comment> \<open>\<^verbatim>\<open>var evt Event; ... One(&evt.eventData)\<close>: a handle loaded from a row, its buffer empty.\<close>
  "Event_of d = \<lparr>Event_eventData = d, logBuffer = []\<rparr>"

record Token =
  IsAppToken :: bool
  GetAppName :: string
  GetUserName :: string

record PermissionScheme =
  FullName :: string

record Opts =
  Opts_Target :: Target
  Opts_Kind :: "PermissionScheme option"
  InternalKind :: string
  Opts_Owner :: "Token option"
  RawOwner :: Owner
  Opts_Cancelable :: bool
  CustomData :: bval

text \<open>
  An error value handed to \<^verbatim>\<open>Done\<close> is used through \<^verbatim>\<open>Error()\<close> only and is modelled by
  that message; the errors the package itself returns are the datatype \<open>err\<close>.
  \<open>ErrDup\<close> stands for the driver's duplicate-key error (\<^verbatim>\<open>mgo.IsDup\<close>), \<open>ErrNotFound\<close> for
  \<^verbatim>\<open>mgo.ErrNotFound\<close> and \<open>ErrConn\<close> for a failure of \<^verbatim>\<open>db.Conn()\<close>.
\<close>

datatype err =
    ErrNotCancelable
  | ErrEventNotFound
  | ErrValidation string
  | ErrThrottled ThrottlingSpec Target
  | ErrEventLocked Event
  | ErrDup bson_id
  | ErrNotFound
  | ErrConn string

definition ErrNoTarget :: err where
  "ErrNoTarget = ErrValidation ''event target is mandatory''"
definition ErrNoKind :: err where
  "ErrNoKind = ErrValidation ''event kind is mandatory''"
definition ErrNoOwner :: err where
  "ErrNoOwner = ErrValidation ''event owner is mandatory''"
definition ErrNoOpts :: err where
  "ErrNoOpts = ErrValidation ''event opts is mandatory''"
definition ErrNoInternalKind :: err where
  "ErrNoInternalKind = ErrValidation ''event internal kind is mandatory''"
definition ErrInvalidOwner :: err where
  "ErrInvalidOwner = ErrValidation ''event owner must not be set on internal events''"
definition ErrInvalidKind :: err where
  "ErrInvalidKind = ErrValidation ''event kind must not be set on internal events''"

fun IsDup :: "err \<Rightarrow> bool" where
  "IsDup (ErrDup k) = True"
| "IsDup e = False"

section \<open>The throttling registry\<close>

type_synonym registry = "string \<rightharpoonup> ThrottlingSpec"

definition SetThrottling :: "ThrottlingSpec \<Rightarrow> registry \<Rightarrow> registry" where
  "SetThrottling spec info =
     (let key = (if KindName spec \<noteq> [] then TargetName spec @ ''_'' @ KindName spec
                 else TargetName spec)
      in info(key \<mapsto> spec))"

definition getThrottling :: "registry \<Rightarrow> Target \<Rightarrow> kind \<Rightarrow> ThrottlingSpec option" where
  "getThrottling info t k =
     (let key = Target_Name t @ ''_'' @ kind_Name k in
      case info key of
        Some s \<Rightarrow> Some s
      | None \<Rightarrow>
          (case info (Target_Name t) of
             Some s \<Rightarrow> Some s
           | None \<Rightarrow> None))"

section \<open>The events collection\<close>

text \<open>
  Modelled from the spec: the store gateway (\<^verbatim>\<open>db\<close>, \<^verbatim>\<open>db/storage\<close> over the mgo driver) is
  not among the sources. Section 4.D of the specification names its operations: insert,
  find-by-id, find-and-modify returning the new document, update-one, update-many,
  remove-by-id, count, and query with sort, limit and skip. The collection is the list of
  its documents in insertion order, with \<^verbatim>\<open>_id\<close> as its unique key: \<open>Insert\<close> refuses a
  document whose \<^verbatim>\<open>_id\<close> is present. \<open>Update\<close> is update-one (the driver's \<^verbatim>\<open>Update\<close>
  changes a single matching document), \<open>UpdateAll\<close> is update-many. A selector is the
  predicate it denotes on documents, an update document the function it applies.
  Each write request is appended to \<open>oplog\<close>, so that the order of the requests an
  operation sends can be stated. \<open>connErr\<close> is what \<^verbatim>\<open>db.Conn()\<close> fails with, if it fails.
  Times are kept as the handle has them (the store's rounding to milliseconds is not
  modelled).

  The state also holds the two process-wide variables of the package: the throttling
  registry, and (as \<open>sent\<close>) the messages handed to the lock updater's channels.
\<close>

datatype store_op =
    OpInsert bson_id
  | OpRemoveId bson_id
  | OpApply bson_id
  | OpUpdate
  | OpUpdateAll

datatype updater_msg = MsgAdd Target | MsgRemove Target

record world =
  rows :: "eventData list"
  oplog :: "store_op list"
  connErr :: "string option"
  throttlingInfo :: registry
  sent :: "updater_msg list"

definition row_id :: "eventData \<Rightarrow> bson_id" where
  "row_id d = eventId_GetBSON (ID d)"

fun remove_first :: "('a \<Rightarrow> bool) \<Rightarrow> 'a list \<Rightarrow> 'a list" where
  "remove_first P [] = []"
| "remove_first P (x # xs) = (if P x then xs else x # remove_first P xs)"

fun update_first :: "('a \<Rightarrow> bool) \<Rightarrow> ('a \<Rightarrow> 'a) \<Rightarrow> 'a list \<Rightarrow> 'a list" where
  "update_first P f [] = []"
| "update_first P f (x # xs) = (if P x then f x # xs else x # update_first P f xs)"

definition Insert :: "eventData \<Rightarrow> world \<Rightarrow> err option \<times> world" where
  "Insert d s =
     (let k = row_id d;
          s1 = s\<lparr>oplog := oplog s @ [OpInsert k]\<rparr>
      in if list_ex (\<lambda>r. row_id r = k) (rows s) then (Some (ErrDup k), s1)
         else (None, s1\<lparr>rows := rows s @ [d\<lparr>ID := eventId_SetBSON k\<rparr>]\<rparr>))"

definition FindId :: "bson_id \<Rightarrow> world \<Rightarrow> eventData option" where
  \<comment> \<open>\<^verbatim>\<open>coll.FindId(id).One(&d)\<close>; \<open>None\<close> is \<^verbatim>\<open>mgo.ErrNotFound\<close>.\<close>
  "FindId k s = find (\<lambda>r. row_id r = k) (rows s)"

definition RemoveId :: "bson_id \<Rightarrow> world \<Rightarrow> err option \<times> world" where
  "RemoveId k s =
     (let s1 = s\<lparr>oplog := oplog s @ [OpRemoveId k]\<rparr>
      in if list_ex (\<lambda>r. row_id r = k) (rows s)
         then (None, s1\<lparr>rows := remove_first (\<lambda>r. row_id r = k) (rows s)\<rparr>)
         else (Some ErrNotFound, s1))"

definition Update ::
  "(eventData \<Rightarrow> bool) \<Rightarrow> (eventData \<Rightarrow> eventData) \<Rightarrow> world \<Rightarrow> err option \<times> world" where
  "Update sel upd s =
     (let s1 = s\<lparr>oplog := oplog s @ [OpUpdate]\<rparr>
      in if list_ex sel (rows s)
         then (None, s1\<lparr>rows := update_first sel upd (rows s)\<rparr>)
         else (Some ErrNotFound, s1))"

definition UpdateAll ::
  "(eventData \<Rightarrow> bool) \<Rightarrow> (eventData \<Rightarrow> eventData) \<Rightarrow> world \<Rightarrow> err option \<times> world" where
  "UpdateAll sel upd s =
     (None, s\<lparr>oplog := oplog s @ [OpUpdateAll],
              rows := map (\<lambda>r. if sel r then upd r else r) (rows s)\<rparr>)"

definition Apply ::
  "bson_id \<Rightarrow> (eventData \<Rightarrow> bool) \<Rightarrow> (eventData \<Rightarrow> eventData) \<Rightarrow> world
     \<Rightarrow> eventData option \<times> world" where
  \<comment> \<open>find-and-modify on \<^verbatim>\<open>{_id: k, ...sel}\<close> with \<^verbatim>\<open>ReturnNew\<close>; \<open>None\<close> is \<^verbatim>\<open>mgo.ErrNotFound\<close>.\<close>
  "Apply k sel upd s =
     (let s1 = s\<lparr>oplog := oplog s @ [OpApply k]\<rparr>;
          q = (\<lambda>r. row_id r = k \<and> sel r)
      in case find q (rows s) of
           None \<Rightarrow> (None, s1)
         | Some r \<Rightarrow> (Some (upd r), s1\<lparr>rows := update_first q upd (rows s)\<rparr>))"

definition Count :: "(eventData \<Rightarrow> bool) \<Rightarrow> world \<Rightarrow> int" where
  "Count sel s = int (length (filter sel (rows s)))"

section \<open>Finishing an event\<close>

text \<open>
  \<^verbatim>\<open>Event.done\<close> (lines 615-650; \<open>done\<close> is a keyword here). The handle \<open>e\<close> is a pointer receiver and is returned as the
  method leaves it; \<open>now\<close> is the reading of \<^verbatim>\<open>time.Now()\<close> at line 638. The argument of
  the deferred \<^verbatim>\<open>coll.RemoveId(e.ID)\<close> is evaluated at the \<^verbatim>\<open>defer\<close> statement, before
  \<^verbatim>\<open>e.ID\<close> is overwritten, and the call runs after the insert, whatever the insert returns.
\<close>

definition done_data :: "Event \<Rightarrow> string option \<Rightarrow> bval \<Rightarrow> time \<Rightarrow> world \<Rightarrow> eventData" where
  \<comment> \<open>lines 633-648: the assignments to the handle's fields, up to the new \<^verbatim>\<open>e.ID\<close>\<close>
  "done_data e evtErr customData now s =
     (let d = Event_eventData e;
          d1 = (case evtErr of
                  Some msg \<Rightarrow> d\<lparr>Error := msg\<rparr>
                | None \<Rightarrow>
                    if Canceled (CancelInfo d)
                    then d\<lparr>Error := ''canceled by user request''\<rparr>
                    else d);
          d2 = d1\<lparr>EndTime := now, EndCustomData := customData,
                  Running := False, Log := logBuffer e\<rparr>;
          d3 = (case FindId (eventId_GetBSON (ID d2)) s of
                  Some dbEvt \<Rightarrow> d2\<lparr>OtherCustomData := OtherCustomData dbEvt\<rparr>
                | None \<Rightarrow> d2)
      in d3\<lparr>ID := \<lparr>eventId_Target = Target_zero, ObjId = UniqueID d3\<rparr>\<rparr>)"

definition Event_done ::
  "Event \<Rightarrow> string option \<Rightarrow> bval \<Rightarrow> bool \<Rightarrow> time \<Rightarrow> world \<Rightarrow> err option \<times> Event \<times> world" where
  "Event_done e evtErr customData abort now s =
     (let d = Event_eventData e;
          s1 = s\<lparr>sent := sent s @ [MsgRemove (Target d)]\<rparr>
      in case connErr s1 of
           Some m \<Rightarrow> (Some (ErrConn m), e, s1)
         | None \<Rightarrow>
             if abort then
               (let (r, s2) = RemoveId (eventId_GetBSON (ID d)) s1 in (r, e, s2))
             else
               (let deferred = eventId_GetBSON (ID d);
                    d4 = done_data e evtErr customData now s1;
                    (r, s2) = Insert d4 s1;
                    (r', s3) = RemoveId deferred s2
                in (r, e\<lparr>Event_eventData := d4\<rparr>, s3)))"

definition Abort :: "Event \<Rightarrow> time \<Rightarrow> world \<Rightarrow> err option \<times> Event \<times> world" where
  "Abort e now s = Event_done e None BNil True now s"

definition Done :: "Event \<Rightarrow> string option \<Rightarrow> time \<Rightarrow> world \<Rightarrow> err option \<times> Event \<times> world" where
  "Done e evtErr now s = Event_done e evtErr BNil False now s"

definition DoneCustomData ::
  "Event \<Rightarrow> string option \<Rightarrow> bval \<Rightarrow> time \<Rightarrow> world \<Rightarrow> err option \<times> Event \<times> world" where
  "DoneCustomData e evtErr customData now s = Event_done e evtErr customData False now s"

section \<open>Creating an event\<close>

text \<open>
  What a call of \<^verbatim>\<open>newEvt\<close> takes from outside the program: the object id that
  \<^verbatim>\<open>bson.NewObjectId()\<close> returns, one reading of the clock for each \<^verbatim>\<open>time.Now()\<close> it can
  reach (line 451 for the throttling window, line 465 for the start, line 711 for the
  expiry test, \<^verbatim>\<open>time.Since\<close> at line 714, line 638 for the end of an expired event), and
  the rendering of a \<^verbatim>\<open>time.Duration\<close> by \<^verbatim>\<open>%v\<close>.
\<close>

record env =
  NewObjectId :: ObjectId
  tThrottle :: time
  tStart :: time
  tExpire :: time
  tSince :: time
  tEnd :: time
  fmtDuration :: "duration \<Rightarrow> string"

definition checkIsExpired :: "env \<Rightarrow> world \<Rightarrow> eventId \<Rightarrow> bool \<times> world" where
  "checkIsExpired env s eid =
     (case FindId (eventId_GetBSON eid) s of
        Some existingEvt \<Rightarrow>
          (let now = tExpire env;
               lastUpdate = LockUpdateTime existingEvt
           in if now > lastUpdate + lockExpireTimeout then
                (let (r, e', s') =
                       Done (Event_of existingEvt)
                         (Some (''event expired, no update for '' @
                                fmtDuration env (tSince env - lastUpdate)))
                         (tEnd env) s
                 in (True, s'))
              else (False, s))
      | None \<Rightarrow> (False, s))"

definition maxRetries :: nat where
  "maxRetries = 1"

definition newEvt_kind :: "Opts \<Rightarrow> err + kind" where
  \<comment> \<open>lines 415-425\<close>
  "newEvt_kind opts =
     (case Opts_Kind opts of
        None \<Rightarrow>
          if InternalKind opts = [] then Inl ErrNoKind
          else Inr \<lparr>kind_Type = KindTypeInternal, kind_Name = InternalKind opts\<rparr>
      | Some scheme \<Rightarrow> Inr \<lparr>kind_Type = KindTypePermission, kind_Name = FullName scheme\<rparr>)"

definition newEvt_owner :: "Opts \<Rightarrow> Owner" where
  \<comment> \<open>lines 426-439\<close>
  "newEvt_owner opts =
     (case Opts_Owner opts of
        None \<Rightarrow>
          if Owner_Name (RawOwner opts) \<noteq> [] \<and> Owner_Type (RawOwner opts) \<noteq> []
          then RawOwner opts
          else \<lparr>Owner_Type = OwnerTypeInternal, Owner_Name = []\<rparr>
      | Some token \<Rightarrow>
          if IsAppToken token
          then \<lparr>Owner_Type = OwnerTypeApp, Owner_Name = GetAppName token\<rparr>
          else \<lparr>Owner_Type = OwnerTypeUser, Owner_Name = GetUserName token\<rparr>)"

definition throttle_query :: "Target \<Rightarrow> ThrottlingSpec \<Rightarrow> time \<Rightarrow> eventData \<Rightarrow> bool" where
  \<comment> \<open>the selector of lines 448-455\<close>
  "throttle_query t tSpec now r \<longleftrightarrow>
     Target_Name (Target r) = Target_Name t \<and>
     Target_Value (Target r) = Target_Value t \<and>
     StartTime r > now - Spec_Time tSpec \<and>
     (if KindName tSpec \<noteq> [] then kind_Name (Kind r) = KindName tSpec else True)"

definition newEvt_conflict ::
  "env \<Rightarrow> Event \<Rightarrow> nat \<Rightarrow> err \<Rightarrow> world \<Rightarrow> err option \<times> world" where
  \<comment> \<open>lines 485-493: what the loop does with the error of a failed insert\<close>
  "newEvt_conflict env evt i err s =
     (if IsDup err then
        (let (locked, s1) =
               (if i \<ge> maxRetries then (True, s)
                else (let (expired, s') = checkIsExpired env s (ID (Event_eventData evt))
                      in (\<not> expired, s')))
         in if locked then
              (case FindId (eventId_GetBSON (ID (Event_eventData evt))) s1 of
                 Some existing \<Rightarrow> (Some (ErrEventLocked (Event_of existing)), s1)
               | None \<Rightarrow> (Some ErrNotFound, s1))
            else (Some err, s1))
      else (Some err, s))"

function newEvt_loop ::
  "env \<Rightarrow> Opts \<Rightarrow> Event \<Rightarrow> nat \<Rightarrow> err option \<Rightarrow> world \<Rightarrow> (Event option \<times> err option) \<times> world" where
  "newEvt_loop env opts evt i err s =
     (if i < maxRetries + 1 then
        (case Insert (Event_eventData evt) s of
           (None, s1) \<Rightarrow>
             ((Some evt, None), s1\<lparr>sent := sent s1 @ [MsgAdd (Opts_Target opts)]\<rparr>)
         | (Some err1, s1) \<Rightarrow>
             (case newEvt_conflict env evt i err1 s1 of
                (err2, s2) \<Rightarrow> newEvt_loop env opts evt (i + 1) err2 s2))
      else ((None, err), s))"
  by pat_completeness auto
termination
  by (relation "measure (\<lambda>(env, opts, evt, i, err, s). maxRetries + 1 - i)") auto

definition newEvt_throttle :: "env \<Rightarrow> Opts \<Rightarrow> kind \<Rightarrow> world \<Rightarrow> err option" where
  \<comment> \<open>lines 446-464: the error the throttling check returns with, if it does\<close>
  "newEvt_throttle env opts k s =
     (let tSpec = getThrottling (throttlingInfo s) (Opts_Target opts) k in
      case tSpec of
        None \<Rightarrow> None
      | Some sp \<Rightarrow>
          if Spec_Max sp > 0 \<and> Spec_Time sp > 0 then
            (let c = Count (throttle_query (Opts_Target opts) sp (tThrottle env)) s
             in if c \<ge> Spec_Max sp
                then Some (ErrThrottled sp (Opts_Target opts))
                else None)
          else None)"

definition newEvt_draft :: "env \<Rightarrow> Opts \<Rightarrow> kind \<Rightarrow> Owner \<Rightarrow> Event" where
  \<comment> \<open>lines 465-477: the event that is to be inserted\<close>
  "newEvt_draft env opts k ow =
     (let now = tStart env in
      \<lparr>Event_eventData =
         \<lparr>ID = \<lparr>eventId_Target = Opts_Target opts, ObjId = []\<rparr>,
          UniqueID = NewObjectId env,
          StartTime = now,
          EndTime = 0,
          Target = Opts_Target opts,
          StartCustomData = CustomData opts,
          EndCustomData = BNil,
          OtherCustomData = BNil,
          Kind = k,
          Owner = ow,
          Cancelable = Opts_Cancelable opts,
          Running = True,
          LockUpdateTime = now,
          Error = [],
          Log = [],
          CancelInfo = cancelInfo_zero,
          RemoveDate = 0\<rparr>,
       logBuffer = []\<rparr>)"

definition newEvt :: "env \<Rightarrow> Opts option \<Rightarrow> world \<Rightarrow> (Event option \<times> err option) \<times> world" where
  "newEvt env optsp s =
     (case optsp of
        None \<Rightarrow> ((None, Some ErrNoOpts), s)
      | Some opts \<Rightarrow>
          if \<not> Target_IsValid (Opts_Target opts) then ((None, Some ErrNoTarget), s)
          else
            (case newEvt_kind opts of
               Inl e \<Rightarrow> ((None, Some e), s)
             | Inr k \<Rightarrow>
                 (let ow = newEvt_owner opts in
                  case connErr s of
                    Some m \<Rightarrow> ((None, Some (ErrConn m)), s)
                  | None \<Rightarrow>
                      (case newEvt_throttle env opts k s of
                         Some e \<Rightarrow> ((None, Some e), s)
                       | None \<Rightarrow>
                           newEvt_loop env opts (newEvt_draft env opts k ow) 0 None s))))"

definition New :: "env \<Rightarrow> Opts option \<Rightarrow> world \<Rightarrow> (Event option \<times> err option) \<times> world" where
  "New env optsp s =
     (case optsp of
        None \<Rightarrow> ((None, Some ErrNoOpts), s)
      | Some opts \<Rightarrow>
          if Opts_Owner opts = None \<and> Owner_Name (RawOwner opts) = []
             \<and> Owner_Type (RawOwner opts) = []
          then ((None, Some ErrNoOwner), s)
          else if Opts_Kind opts = None then ((None, Some ErrNoKind), s)
          else newEvt env optsp s)"

definition NewInternal :: "env \<Rightarrow> Opts option \<Rightarrow> world \<Rightarrow> (Event option \<times> err option) \<times> world" where
  "NewInternal env optsp s =
     (case optsp of
        None \<Rightarrow> ((None, Some ErrNoOpts), s)
      | Some opts \<Rightarrow>
          if Opts_Owner opts \<noteq> None then ((None, Some ErrInvalidOwner), s)
          else if Opts_Kind opts \<noteq> None then ((None, Some ErrInvalidKind), s)
          else if InternalKind opts = [] then ((None, Some ErrNoInternalKind), s)
          else newEvt env optsp s)"

section \<open>Cancellation\<close>

text \<open>
  \<^verbatim>\<open>Apply(change, &e.eventData)\<close> decodes the updated document into the handle, so on
  success the handle's data is the new row. \<open>now\<close> is the reading of \<^verbatim>\<open>time.Now()\<close>.
\<close>

definition TryCancel ::
  "Event \<Rightarrow> string \<Rightarrow> string \<Rightarrow> time \<Rightarrow> world \<Rightarrow> err option \<times> Event \<times> world" where
  "TryCancel e reason owner now s =
     (let d = Event_eventData e in
      if \<not> Cancelable d \<or> \<not> Running d then (Some ErrNotCancelable, e, s)
      else
        (case connErr s of
           Some m \<Rightarrow> (Some (ErrConn m), e, s)
         | None \<Rightarrow>
             (case Apply (eventId_GetBSON (ID d)) (\<lambda>r. True)
                     (\<lambda>r. r\<lparr>CancelInfo :=
                              \<lparr>cancel_Owner = owner, cancel_StartTime = now, AckTime = 0,
                               Reason = reason, Asked = True, Canceled = False\<rparr>\<rparr>) s of
                (None, s1) \<Rightarrow> (Some ErrEventNotFound, e, s1)
              | (Some r, s1) \<Rightarrow> (None, e\<lparr>Event_eventData := r\<rparr>, s1))))"

definition AckCancel :: "Event \<Rightarrow> time \<Rightarrow> world \<Rightarrow> err option \<times> Event \<times> world" where
  "AckCancel e now s =
     (let d = Event_eventData e in
      if \<not> Cancelable d \<or> \<not> Running d then (Some ErrNotCancelable, e, s)
      else
        (case connErr s of
           Some m \<Rightarrow> (Some (ErrConn m), e, s)
         | None \<Rightarrow>
             (case Apply (eventId_GetBSON (ID d)) (\<lambda>r. Asked (CancelInfo r))
                     (\<lambda>r. r\<lparr>CancelInfo := (CancelInfo r)\<lparr>AckTime := now, Canceled := True\<rparr>\<rparr>) s of
                (None, s1) \<Rightarrow> (Some ErrEventNotFound, e, s1)
              | (Some r, s1) \<Rightarrow> (None, e\<lparr>Event_eventData := r\<rparr>, s1))))"

definition MarkAsRemoved :: "Target \<Rightarrow> time \<Rightarrow> world \<Rightarrow> err option \<times> world" where
  "MarkAsRemoved target now s =
     (case connErr s of
        Some m \<Rightarrow> (Some (ErrConn m), s)
      | None \<Rightarrow>
          UpdateAll (\<lambda>r. Target r = target \<and> RemoveDate r = 0) (\<lambda>r. r\<lparr>RemoveDate := now\<rparr>) s)"

section \<open>The lock updater\<close>

text \<open>
  \<^verbatim>\<open>lockUpdater.spin\<close> (lines 675-705) is a loop around a \<^verbatim>\<open>select\<close>. \<open>wake\<close> is what the
  \<^verbatim>\<open>select\<close> returns with, \<open>spin_body\<close> is one pass of the loop for a wake that is not the
  stop signal (\<open>now\<close> is the reading of \<^verbatim>\<open>time.Now()\<close> at line 699), and \<open>spin\<close> runs the
  loop over the wakes that arrive, up to the stop signal. The Go map used as the set of
  held targets is a set; the slice built from it is only used under \<^verbatim>\<open>$in\<close>.
\<close>

datatype wake = Added Target | Removed Target | Stopped | TimedOut

definition spin_body :: "wake \<Rightarrow> time \<Rightarrow> Target set \<Rightarrow> world \<Rightarrow> Target set \<times> world" where
  "spin_body w now held s =
     (let held1 = (case w of
                     Added added \<Rightarrow> insert added held
                   | Removed removed \<Rightarrow> held - {removed}
                   | Stopped \<Rightarrow> held
                   | TimedOut \<Rightarrow> held)
      in case connErr s of
           Some m \<Rightarrow> (held1, s)
         | None \<Rightarrow>
             (let slice = IdDoc ` held1;
                  (err, s1) = Update (\<lambda>r. row_id r \<in> slice) (\<lambda>r. r\<lparr>LockUpdateTime := now\<rparr>) s
              in (held1, s1)))"

fun spin :: "Target set \<Rightarrow> (wake \<times> time) list \<Rightarrow> world \<Rightarrow> Target set \<times> world" where
  "spin held [] s = (held, s)"
| "spin held ((Stopped, now) # ws) s = (held, s)"
| "spin held ((w, now) # ws) s = (case spin_body w now held s of (held1, s1) \<Rightarrow> spin held1 ws s1)"

section \<open>Listing events\<close>

record Filter =
  Filter_Target :: Target
  Filter_KindType :: kindType
  Filter_KindName :: string
  Filter_OwnerType :: ownerType
  Filter_OwnerName :: string
  Since :: time
  Until :: time
  Filter_Running :: "bool option"
  IncludeRemoved :: bool
  Raw :: "(string \<rightharpoonup> bval) option"
  Limit :: int
  Skip :: int
  Sort :: string

text \<open>
  \<^verbatim>\<open>bson.M\<close> is a Go map from strings to values: a map \<open>string \<rightharpoonup> bval\<close>. The loop over
  \<^verbatim>\<open>f.Raw\<close> assigns every entry of \<^verbatim>\<open>Raw\<close> into the query, which is \<open>query ++ raw\<close>.
\<close>

definition toQuery :: "Filter \<Rightarrow> (string \<rightharpoonup> bval)" where
  "toQuery f =
     (let query = Map.empty;
          query = (if Target_Name (Filter_Target f) \<noteq> []
                   then query(''target.name'' \<mapsto> BStr (Target_Name (Filter_Target f))) else query);
          query = (if Target_Value (Filter_Target f) \<noteq> []
                   then query(''target.value'' \<mapsto> BStr (Target_Value (Filter_Target f))) else query);
          query = (if Filter_KindType f \<noteq> []
                   then query(''kind.type'' \<mapsto> BStr (Filter_KindType f)) else query);
          query = (if Filter_KindName f \<noteq> []
                   then query(''kind.name'' \<mapsto> BStr (Filter_KindName f)) else query);
          query = (if Filter_OwnerType f \<noteq> []
                   then query(''owner.type'' \<mapsto> BStr (Filter_OwnerType f)) else query);
          query = (if Filter_OwnerName f \<noteq> []
                   then query(''owner.name'' \<mapsto> BStr (Filter_OwnerName f)) else query);
          timeParts = [];
          timeParts = (if Since f \<noteq> 0
                       then timeParts @ [BDoc [(''starttime'', BDoc [(''$gte'', BTime (Since f))])]]
                       else timeParts);
          timeParts = (if Until f \<noteq> 0
                       then timeParts @ [BDoc [(''starttime'', BDoc [(''$lte'', BTime (Until f))])]]
                       else timeParts);
          query = (if length timeParts \<noteq> 0 then query(''$and'' \<mapsto> BArr timeParts) else query);
          query = (case Filter_Running f of
                     Some b \<Rightarrow> query(''running'' \<mapsto> BBool b)
                   | None \<Rightarrow> query);
          query = (if \<not> IncludeRemoved f
                   then query(''removedate'' \<mapsto> BDoc [(''$exists'', BBool False)]) else query);
          query = (case Raw f of
                     Some raw \<Rightarrow> query ++ raw
                   | None \<Rightarrow> query)
      in query)"

text \<open>
  The query object that \<^verbatim>\<open>List\<close> builds with \<^verbatim>\<open>Find\<close>, \<^verbatim>\<open>Sort\<close>, \<^verbatim>\<open>Limit\<close> and \<^verbatim>\<open>Skip\<close>:
  its selector (\<open>None\<close> is the nil map, which selects every document), its sort key, and
  the limit and the skip when \<^verbatim>\<open>Limit\<close> and \<^verbatim>\<open>Skip\<close> were called. \<open>find_All\<close> is the store
  running it: select, sort, skip, then limit. The way the store reads a selector document
  and a sort key are parameters (\<open>sem\<close>, \<open>srt\<close>): \<^verbatim>\<open>Raw\<close> and \<^verbatim>\<open>Sort\<close> can hold anything the
  store understands.
\<close>

record find_query =
  q_selector :: "(string \<rightharpoonup> bval) option"
  q_sort :: string
  q_limit :: "int option"
  q_skip :: "int option"

definition find_All ::
  "((string \<rightharpoonup> bval) \<Rightarrow> eventData \<Rightarrow> bool) \<Rightarrow> (string \<Rightarrow> eventData list \<Rightarrow> eventData list)
     \<Rightarrow> find_query \<Rightarrow> world \<Rightarrow> eventData list" where
  "find_All sem srt q s =
     (let selected = (case q_selector q of
                        None \<Rightarrow> rows s
                      | Some m \<Rightarrow> filter (sem m) (rows s));
          sorted_rows = srt (q_sort q) selected;
          skipped = (case q_skip q of
                       None \<Rightarrow> sorted_rows
                     | Some n \<Rightarrow> drop (nat n) sorted_rows)
      in case q_limit q of
           None \<Rightarrow> skipped
         | Some n \<Rightarrow> take (nat n) skipped)"

definition List_find :: "Filter option \<Rightarrow> find_query" where
  \<comment> \<open>lines 322-337 and 344-350\<close>
  "List_find fltr =
     (let limit = 100;
          skip = 0;
          query = None;
          sort = ''-starttime'';
          (limit, sort, skip, query) =
            (case fltr of
               None \<Rightarrow> (limit, sort, skip, query)
             | Some f \<Rightarrow>
                 (if Limit f \<noteq> 0 then Limit f else limit,
                  if Sort f \<noteq> [] then Sort f else sort,
                  if Skip f > 0 then Skip f else skip,
                  Some (toQuery f)));
          find = \<lparr>q_selector = query, q_sort = sort, q_limit = None, q_skip = None\<rparr>;
          find = (if limit > 0 then find\<lparr>q_limit := Some limit\<rparr> else find);
          find = (if skip > 0 then find\<lparr>q_skip := Some skip\<rparr> else find)
      in find)"

definition List ::
  "((string \<rightharpoonup> bval) \<Rightarrow> eventData \<Rightarrow> bool) \<Rightarrow> (string \<Rightarrow> eventData list \<Rightarrow> eventData list)
     \<Rightarrow> Filter option \<Rightarrow> world \<Rightarrow> Event list option \<times> err option" where
  "List sem srt fltr s =
     (let find = List_find fltr in
      case connErr s of
        Some m \<Rightarrow> (None, Some (ErrConn m))
      | None \<Rightarrow>
          (let allData = find_All sem srt find s
           in (Some (map Event_of allData), None)))"

section \<open>Notions used in the statements\<close>

text \<open>
  A handle on a running event, as \<^verbatim>\<open>newEvt\<close> creates it and the store returns it while the
  event is live: \<^verbatim>\<open>Running\<close> is set, \<^verbatim>\<open>ID\<close> holds the target (no object id), \<^verbatim>\<open>UniqueID\<close>
  is a generated object id (so not empty), and no error has been recorded.
\<close>

definition live_handle :: "Event \<Rightarrow> bool" where
  "live_handle e \<longleftrightarrow>
     Running (Event_eventData e) \<and> ObjId (ID (Event_eventData e)) = [] \<and>
     UniqueID (Event_eventData e) \<noteq> [] \<and> Error (Event_eventData e) = []"

text \<open>
  A call of \<^verbatim>\<open>New\<close> that gets as far as the insert: the options pass the checks of \<^verbatim>\<open>New\<close>
  and \<^verbatim>\<open>newEvt\<close>, the store is reachable and the throttling check lets the call through.
\<close>

definition New_kind :: "Opts \<Rightarrow> kind" where
  \<comment> \<open>the kind of an event made by \<^verbatim>\<open>New\<close>, where \<^verbatim>\<open>opts.Kind\<close> is not nil\<close>
  "New_kind opts =
     \<lparr>kind_Type = KindTypePermission,
      kind_Name = (case Opts_Kind opts of Some scheme \<Rightarrow> FullName scheme | None \<Rightarrow> [])\<rparr>"

definition New_admits :: "env \<Rightarrow> Opts \<Rightarrow> world \<Rightarrow> bool" where
  "New_admits env opts s \<longleftrightarrow>
     \<not> (Opts_Owner opts = None \<and> Owner_Name (RawOwner opts) = []
        \<and> Owner_Type (RawOwner opts) = [])
     \<and> Opts_Kind opts \<noteq> None
     \<and> Target_IsValid (Opts_Target opts)
     \<and> connErr s = None
     \<and> newEvt_throttle env opts (New_kind opts) s = None"

definition expired_msg :: "env \<Rightarrow> eventData \<Rightarrow> string" where
  \<comment> \<open>the message of the error built at line 714 for the stale row \<open>r\<close>\<close>
  "expired_msg env r =
     ''event expired, no update for '' @ fmtDuration env (tSince env - LockUpdateTime r)"

definition inserts_on :: "bson_id \<Rightarrow> store_op list \<Rightarrow> nat" where
  \<comment> \<open>how many insert requests for the key \<open>k\<close> a log holds\<close>
  "inserts_on k ops = length (filter (\<lambda>op. op = OpInsert k) ops)"

text \<open>
  The store's guarantee on \<^verbatim>\<open>_id\<close>: no two rows have the same id. Every operation
  of the package keeps it (see the lemmas on \<open>unique_ids\<close> below).
\<close>

definition unique_ids :: "world \<Rightarrow> bool" where
  "unique_ids s \<longleftrightarrow> distinct (map row_id (rows s))"

section \<open>Inputs used in the examples\<close>

definition spec_a_b :: "int \<Rightarrow> duration \<Rightarrow> ThrottlingSpec" where
  \<comment> \<open>a kind-scoped spec: target name \<open>a\<close>, kind name \<open>b\<close>\<close>
  "spec_a_b m d = \<lparr>TargetName = ''a'', KindName = ''b'', Spec_Max = m, Spec_Time = d\<rparr>"

definition spec_ab :: "int \<Rightarrow> duration \<Rightarrow> ThrottlingSpec" where
  \<comment> \<open>a target-scoped spec: target name \<open>a_b\<close>, no kind name\<close>
  "spec_ab m d = \<lparr>TargetName = ''a_b'', KindName = [], Spec_Max = m, Spec_Time = d\<rparr>"

definition ex_target :: Target where
  "ex_target = \<lparr>Target_Name = ''app'', Target_Value = ''web''\<rparr>"

definition ex_opts :: Opts where
  \<comment> \<open>options for \<^verbatim>\<open>New\<close>: the user alice runs \<open>app.update\<close> on the target\<close>
  "ex_opts =
     \<lparr>Opts_Target = ex_target,
      Opts_Kind = Some \<lparr>FullName = ''app.update''\<rparr>,
      InternalKind = [],
      Opts_Owner = Some \<lparr>IsAppToken = False, GetAppName = [], GetUserName = ''alice''\<rparr>,
      RawOwner = \<lparr>Owner_Type = [], Owner_Name = []\<rparr>,
      Opts_Cancelable = True,
      CustomData = BNil\<rparr>"

definition ex_env :: "time \<Rightarrow> env" where
  \<comment> \<open>a call at time \<open>t\<close> that is given the object id \<open>e00000000002\<close>\<close>
  "ex_env t =
     \<lparr>NewObjectId = ''e00000000002'', tThrottle = t, tStart = t, tExpire = t, tSince = t,
      tEnd = t, fmtDuration = (\<lambda>d. ''6m0s'')\<rparr>"

definition ex_live :: eventData where
  \<comment> \<open>the live row of an event that alice started on the target at time 1000\<close>
  "ex_live =
     \<lparr>ID = \<lparr>eventId_Target = ex_target, ObjId = []\<rparr>,
      UniqueID = ''e00000000001'',
      StartTime = 1000,
      EndTime = 0,
      Target = ex_target,
      StartCustomData = BNil,
      EndCustomData = BNil,
      OtherCustomData = BNil,
      Kind = \<lparr>kind_Type = KindTypePermission, kind_Name = ''app.update''\<rparr>,
      Owner = \<lparr>Owner_Type = OwnerTypeUser, Owner_Name = ''alice''\<rparr>,
      Cancelable = True,
      Running = True,
      LockUpdateTime = 1000,
      Error = [],
      Log = [],
      CancelInfo = cancelInfo_zero,
      RemoveDate = 0\<rparr>"

definition ex_handle :: Event where
  \<comment> \<open>the handle of that event after \<^verbatim>\<open>Logf("step %d", 1)\<close>\<close>
  "ex_handle = \<lparr>Event_eventData = ex_live, logBuffer = ''step 1''\<rparr>"

definition world0 :: world where
  \<comment> \<open>an empty, reachable store and an empty registry\<close>
  "world0 = \<lparr>rows = [], oplog = [], connErr = None, throttlingInfo = Map.empty, sent = []\<rparr>"

definition ex_world :: world where
  \<comment> \<open>the store holding the live row only\<close>
  "ex_world = world0\<lparr>rows := [ex_live]\<rparr>"

definition ex_asked :: eventData where
  \<comment> \<open>the live row after \<^verbatim>\<open>TryCancel("too slow", "bob")\<close> at time 1500\<close>
  "ex_asked =
     ex_live\<lparr>CancelInfo :=
               \<lparr>cancel_Owner = ''bob'', cancel_StartTime = 1500, AckTime = 0,
                Reason = ''too slow'', Asked = True, Canceled = False\<rparr>\<rparr>"

definition ex_world_asked :: world where
  "ex_world_asked = world0\<lparr>rows := [ex_asked]\<rparr>"

definition ex_spec :: "int \<Rightarrow> ThrottlingSpec" where
  \<comment> \<open>at most \<open>m\<close> events an hour on targets named \<open>app\<close>\<close>
  "ex_spec m = \<lparr>TargetName = ''app'', KindName = [], Spec_Max = m, Spec_Time = 3600000000000\<rparr>"

definition ex_finished :: "ObjectId \<Rightarrow> time \<Rightarrow> eventData" where
  \<comment> \<open>the historical row of an event on the target that started at \<open>t\<close>\<close>
  "ex_finished uid t =
     ex_live\<lparr>ID := \<lparr>eventId_Target = Target_zero, ObjId = uid\<rparr>, UniqueID := uid,
              StartTime := t, EndTime := t + 1, Running := False\<rparr>"

definition ex_world_twin :: world where
  \<comment> \<open>the live row together with a historical row of the same event: what a holder
      leaves that dies between the insert and the removal of \<^verbatim>\<open>Done\<close>\<close>
  "ex_world_twin = world0\<lparr>rows := [ex_live, ex_finished ''e00000000001'' 1000]\<rparr>"

definition ex_world_max0 :: world where
  \<comment> \<open>an empty store, with a spec of maximum 0 registered\<close>
  "ex_world_max0 = world0\<lparr>throttlingInfo := SetThrottling (ex_spec 0) Map.empty\<rparr>"

definition ex_world_max2 :: world where
  \<comment> \<open>two finished events on the target, with a spec of maximum 2 registered\<close>
  "ex_world_max2 =
     world0\<lparr>rows := [ex_finished ''e00000000001'' 1000, ex_finished ''e00000000003'' 2000],
            throttlingInfo := SetThrottling (ex_spec 2) Map.empty\<rparr>"

definition ex_opts_half_owner :: Opts where
  \<comment> \<open>options for \<^verbatim>\<open>New\<close> without a token, whose \<^verbatim>\<open>RawOwner\<close> has a type and no name\<close>
  "ex_opts_half_owner =
     ex_opts\<lparr>Opts_Owner := None, RawOwner := \<lparr>Owner_Type = OwnerTypeUser, Owner_Name = []\<rparr>\<rparr>"

definition ex_opts_internal :: "Owner \<Rightarrow> Opts" where
  \<comment> \<open>options for \<^verbatim>\<open>NewInternal\<close> with the given \<^verbatim>\<open>RawOwner\<close>\<close>
  "ex_opts_internal raw =
     ex_opts\<lparr>Opts_Kind := None, InternalKind := ''healer'', Opts_Owner := None, RawOwner := raw\<rparr>"

definition ex_target2 :: Target where
  "ex_target2 = \<lparr>Target_Name = ''app'', Target_Value = ''api''\<rparr>"

definition ex_live2 :: eventData where
  \<comment> \<open>the live row of a second event of the same process, on another target\<close>
  "ex_live2 =
     ex_live\<lparr>ID := \<lparr>eventId_Target = ex_target2, ObjId = []\<rparr>, UniqueID := ''e00000000003'',
              Target := ex_target2\<rparr>"

definition ex_world_two :: world where
  \<comment> \<open>the store holding the live rows of both events\<close>
  "ex_world_two = world0\<lparr>rows := [ex_live, ex_live2]\<rparr>"

definition ex_filter :: Filter where
  \<comment> \<open>a filter on the target's name with a raw entry for the same key, and nothing else set\<close>
  "ex_filter =
     \<lparr>Filter_Target = \<lparr>Target_Name = ''app'', Target_Value = []\<rparr>,
      Filter_KindType = [], Filter_KindName = [], Filter_OwnerType = [], Filter_OwnerName = [],
      Since = 0, Until = 0, Filter_Running = None, IncludeRemoved = False,
      Raw = Some [''target.name'' \<mapsto> BStr ''node''],
      Limit = 0, Skip = 0, Sort = []\<rparr>"

definition ex_sem :: "(string \<rightharpoonup> bval) \<Rightarrow> eventData \<Rightarrow> bool" where
  \<comment> \<open>a store that reads the key \<open>target.name\<close> of a selector, and no other\<close>
  "ex_sem q r =
     (case q ''target.name'' of
        Some v \<Rightarrow> v = BStr (Target_Name (Target r))
      | None \<Rightarrow> True)"

definition ex_srt :: "string \<Rightarrow> eventData list \<Rightarrow> eventData list" where
  \<comment> \<open>a store that reads the sort keys \<open>-starttime\<close> and \<open>starttime\<close>, and no other\<close>
  "ex_srt key xs =
     (if key = ''-starttime'' then rev (sort_key StartTime xs)
      else if key = ''starttime'' then sort_key StartTime xs
      else xs)"

lemmas ex_defs =
  ex_target_def ex_opts_def ex_env_def ex_live_def ex_handle_def world0_def ex_world_def

section \<open>Facts about the store\<close>

lemma list_ex_find: "list_ex P xs \<longleftrightarrow> find P xs \<noteq> None"
  by (induction xs) auto

lemma find_append:
  "find P (xs @ ys) = (case find P xs of Some x \<Rightarrow> Some x | None \<Rightarrow> find P ys)"
  by (induction xs) auto

lemma find_remove_first_other:
  "k' \<noteq> k \<Longrightarrow> find (\<lambda>r. f r = k') (remove_first (\<lambda>r. f r = k) xs) = find (\<lambda>r. f r = k') xs"
  by (induction xs) auto

lemma find_key_None: "k \<notin> f ` set xs \<Longrightarrow> find (\<lambda>r. f r = k) xs = None"
  by (induction xs) auto

lemma find_remove_first_same:
  "distinct (map f xs) \<Longrightarrow> find (\<lambda>r. f r = k) (remove_first (\<lambda>r. f r = k) xs) = None"
  by (induction xs) (auto simp: find_key_None)

lemma remove_first_append_keep:
  "\<not> P x \<Longrightarrow> remove_first P (xs @ [x]) = remove_first P xs @ [x]"
  by (induction xs) auto

lemma remove_first_id: "find P xs = None \<Longrightarrow> remove_first P xs = xs"
  by (induction xs) (auto split: if_splits)

lemma GetBSON_live: "ObjId eid = [] \<Longrightarrow> eventId_GetBSON eid = IdDoc (eventId_Target eid)"
  by (simp add: eventId_GetBSON_def)

lemma GetBSON_hist: "uid \<noteq> [] \<Longrightarrow> eventId_GetBSON \<lparr>eventId_Target = t, ObjId = uid\<rparr> = IdObj uid"
  by (simp add: eventId_GetBSON_def)

lemma GetBSON_SetBSON: "eventId_GetBSON (eventId_SetBSON (eventId_GetBSON eid)) = eventId_GetBSON eid"
  by (simp add: eventId_GetBSON_def eventId_SetBSON_def)

lemma Insert_ok:
  "FindId (row_id d) s = None \<Longrightarrow>
   Insert d s = (None, s\<lparr>oplog := oplog s @ [OpInsert (row_id d)],
                          rows := rows s @ [d\<lparr>ID := eventId_SetBSON (row_id d)\<rparr>]\<rparr>)"
  by (simp add: Insert_def FindId_def list_ex_find Let_def)

lemma Insert_dup:
  "FindId (row_id d) s = Some r \<Longrightarrow>
   Insert d s = (Some (ErrDup (row_id d)), s\<lparr>oplog := oplog s @ [OpInsert (row_id d)]\<rparr>)"
  by (simp add: Insert_def FindId_def list_ex_find Let_def)

lemma RemoveId_eq:
  "RemoveId k s =
     (if FindId k s = None then Some ErrNotFound else None,
      s\<lparr>oplog := oplog s @ [OpRemoveId k],
        rows := remove_first (\<lambda>r. row_id r = k) (rows s)\<rparr>)"
  by (simp add: RemoveId_def FindId_def list_ex_find Let_def remove_first_id)

lemma FindId_simps:
  "FindId k (s\<lparr>sent := x\<rparr>) = FindId k s"
  "FindId k (s\<lparr>oplog := y\<rparr>) = FindId k s"
  "FindId k (s\<lparr>rows := xs\<rparr>) = find (\<lambda>r. row_id r = k) xs"
  by (simp_all add: FindId_def)

lemma done_data_fields:
  "UniqueID (done_data e evtErr cd now s) = UniqueID (Event_eventData e)"
  "ID (done_data e evtErr cd now s)
     = \<lparr>eventId_Target = Target_zero, ObjId = UniqueID (Event_eventData e)\<rparr>"
  "Running (done_data e evtErr cd now s) = False"
  "EndTime (done_data e evtErr cd now s) = now"
  "EndCustomData (done_data e evtErr cd now s) = cd"
  "Log (done_data e evtErr cd now s) = logBuffer e"
  "Target (done_data e evtErr cd now s) = Target (Event_eventData e)"
  "Error (done_data e evtErr cd now s)
     = (case evtErr of
          Some msg \<Rightarrow> msg
        | None \<Rightarrow> if Canceled (CancelInfo (Event_eventData e))
                   then ''canceled by user request''
                   else Error (Event_eventData e))"
  by (simp_all add: done_data_def Let_def split: option.splits)

lemma row_id_done_data:
  "UniqueID (Event_eventData e) \<noteq> [] \<Longrightarrow>
   row_id (done_data e evtErr cd now s) = IdObj (UniqueID (Event_eventData e))"
  by (simp add: row_id_def done_data_fields GetBSON_hist)

lemma stored_done_data:
  "UniqueID (Event_eventData e) \<noteq> [] \<Longrightarrow>
   (done_data e evtErr cd now s)\<lparr>ID := eventId_SetBSON (IdObj (UniqueID (Event_eventData e)))\<rparr>
     = done_data e evtErr cd now s"
proof -
  have "ID (done_data e evtErr cd now s) = eventId_SetBSON (IdObj (UniqueID (Event_eventData e)))"
    by (simp add: done_data_fields eventId_SetBSON_def)
  then show ?thesis
    by (metis eventData.surjective eventData.update_convs(1))
qed

lemma Done_effect:
  assumes "connErr s = None" and "ObjId (ID (Event_eventData e)) = []"
    and "UniqueID (Event_eventData e) \<noteq> []"
    and "FindId (IdObj (UniqueID (Event_eventData e))) s = None"
  shows "Event_done e evtErr cd False now s =
           (None, e\<lparr>Event_eventData := done_data e evtErr cd now
                       (s\<lparr>sent := sent s @ [MsgRemove (Target (Event_eventData e))]\<rparr>)\<rparr>,
            s\<lparr>sent := sent s @ [MsgRemove (Target (Event_eventData e))],
              oplog := oplog s @ [OpInsert (IdObj (UniqueID (Event_eventData e))),
                                  OpRemoveId (IdDoc (eventId_Target (ID (Event_eventData e))))],
              rows := remove_first
                        (\<lambda>r. row_id r = IdDoc (eventId_Target (ID (Event_eventData e))))
                        (rows s) @
                      [done_data e evtErr cd now
                         (s\<lparr>sent := sent s @ [MsgRemove (Target (Event_eventData e))]\<rparr>)]\<rparr>)"
  using assms
  by (simp add: Event_done_def Let_def Insert_ok RemoveId_eq row_id_done_data FindId_simps
      stored_done_data GetBSON_live remove_first_append_keep)

section \<open>Finishing an event: what Done leaves in the store\<close>

lemma Done_fails_conn: "connErr s = Some m \<Longrightarrow> fst (Event_done e evtErr cd ab now s) = Some (ErrConn m)"
  by (simp add: Event_done_def Let_def)

lemma Done_fails_dup:
  assumes "connErr s = None" and "UniqueID (Event_eventData e) \<noteq> []"
    and "FindId (IdObj (UniqueID (Event_eventData e))) s = Some r"
  shows "fst (Event_done e evtErr cd False now s) = Some (ErrDup (IdObj (UniqueID (Event_eventData e))))"
proof -
  let ?s1 = "s\<lparr>sent := sent s @ [MsgRemove (Target (Event_eventData e))]\<rparr>"
  have "FindId (row_id (done_data e evtErr cd now ?s1)) ?s1 = Some r"
    using assms by (simp add: row_id_done_data FindId_simps)
  from Insert_dup [OF this] show ?thesis
    using assms by (simp add: Event_done_def Let_def RemoveId_eq row_id_done_data)
qed

lemma Done_success:
  assumes "UniqueID (Event_eventData e) \<noteq> []"
    and "fst (Event_done e evtErr cd False now s) = None"
  shows "connErr s = None \<and> FindId (IdObj (UniqueID (Event_eventData e))) s = None"
proof (intro conjI)
  show c: "connErr s = None"
  proof (cases "connErr s")
    case (Some m)
    with assms(2) Done_fails_conn [OF Some] show ?thesis by simp
  qed simp
  show "FindId (IdObj (UniqueID (Event_eventData e))) s = None"
  proof (cases "FindId (IdObj (UniqueID (Event_eventData e))) s")
    case (Some r)
    with assms Done_fails_dup [OF c assms(1) Some] show ?thesis by simp
  qed simp
qed

text \<open>
  Claim C3. Let \<open>e\<close> be a handle on a running event and let \<^verbatim>\<open>Done(err)\<close> return nil.
  Then the store holds a row whose \<^verbatim>\<open>_id\<close> is the event's unique id, with \<^verbatim>\<open>running\<close> false,
  \<^verbatim>\<open>endTime\<close> the time read by \<^verbatim>\<open>Done\<close>, \<^verbatim>\<open>log\<close> the contents of the handle's log buffer and
  \<^verbatim>\<open>error\<close> the message of \<open>err\<close> if there is one, else \<open>canceled by user request\<close> if the
  handle's \<^verbatim>\<open>cancelInfo.canceled\<close> is set, else empty; no row is keyed by the target any
  more; the requests sent to the store were the insert of the historical row and then
  the removal of the live row; and the unique id of the handle is unchanged.
\<close>

theorem Done_writes_historical_row:
  assumes "live_handle e" and "distinct (map row_id (rows s))"
    and "Done e evtErr now s = (None, e', s')"
  shows "(\<exists>h. FindId (IdObj (UniqueID (Event_eventData e))) s' = Some h
            \<and> ID h = \<lparr>eventId_Target = Target_zero, ObjId = UniqueID (Event_eventData e)\<rparr>
            \<and> UniqueID h = UniqueID (Event_eventData e)
            \<and> Running h = False \<and> EndTime h = now \<and> Log h = logBuffer e
            \<and> Error h = (case evtErr of
                           Some msg \<Rightarrow> msg
                         | None \<Rightarrow> if Canceled (CancelInfo (Event_eventData e))
                                    then ''canceled by user request'' else []))
         \<and> FindId (IdDoc (eventId_Target (ID (Event_eventData e)))) s' = None
         \<and> oplog s' = oplog s @ [OpInsert (IdObj (UniqueID (Event_eventData e))),
                                 OpRemoveId (IdDoc (eventId_Target (ID (Event_eventData e))))]
         \<and> UniqueID (Event_eventData e') = UniqueID (Event_eventData e)"
proof -
  let ?d = "Event_eventData e"
  let ?s1 = "s\<lparr>sent := sent s @ [MsgRemove (Target ?d)]\<rparr>"
  let ?h = "done_data e evtErr BNil now ?s1"
  let ?live = "\<lambda>r. row_id r = IdDoc (eventId_Target (ID ?d))"
  from assms(1) have live: "ObjId (ID ?d) = []" and uid: "UniqueID ?d \<noteq> []"
    and noerr: "Error ?d = []"
    by (simp_all add: live_handle_def)
  from assms(3) have "fst (Event_done e evtErr BNil False now s) = None"
    by (simp add: Done_def)
  from Done_success [OF uid this]
  have conn: "connErr s = None" and fresh: "FindId (IdObj (UniqueID ?d)) s = None"
    by simp_all
  from Done_effect [OF conn live uid fresh, of evtErr BNil now] assms(3)
  have e': "e' = e\<lparr>Event_eventData := ?h\<rparr>"
    and s': "s' = s\<lparr>sent := sent s @ [MsgRemove (Target ?d)],
                   oplog := oplog s @ [OpInsert (IdObj (UniqueID ?d)),
                                       OpRemoveId (IdDoc (eventId_Target (ID ?d)))],
                   rows := remove_first ?live (rows s) @ [?h]\<rparr>"
    by (simp_all add: Done_def)
  have gone: "find ?live (remove_first ?live (rows s)) = None"
    using assms(2) by (rule find_remove_first_same)
  have other: "find (\<lambda>r. row_id r = IdObj (UniqueID ?d)) (remove_first ?live (rows s)) = None"
    using fresh by (simp add: find_remove_first_other FindId_def)
  have "FindId (IdObj (UniqueID ?d)) s' = Some ?h"
    by (simp add: s' FindId_simps find_append other row_id_done_data [OF uid])
  moreover have "FindId (IdDoc (eventId_Target (ID ?d))) s' = None"
    by (simp add: s' FindId_simps find_append gone row_id_done_data [OF uid])
  ultimately show ?thesis
    by (simp add: s' e' done_data_fields noerr split: option.split)
qed

theorem Done_writes_historical_row_witness:
  "live_handle ex_handle \<and> distinct (map row_id (rows ex_world))
   \<and> fst (Done ex_handle None 2000 ex_world) = None
   \<and> (\<exists>h. FindId (IdObj ''e00000000001'') (snd (snd (Done ex_handle None 2000 ex_world))) = Some h
          \<and> Running h = False \<and> EndTime h = 2000 \<and> Log h = ''step 1'' \<and> Error h = [])
   \<and> FindId (IdDoc ex_target) (snd (snd (Done ex_handle None 2000 ex_world))) = None"
proof -
  have h1: "live_handle ex_handle"
    by (simp add: live_handle_def ex_defs)
  have h2: "distinct (map row_id (rows ex_world))"
    by (simp add: ex_defs)
  have h3: "fst (Done ex_handle None 2000 ex_world) = None"
    by (simp add: ex_defs Done_def Event_done_def done_data_def Insert_def RemoveId_def FindId_def
        row_id_def eventId_GetBSON_def cancelInfo_zero_def Let_def)
  then have h4: "Done ex_handle None 2000 ex_world =
                   (None, fst (snd (Done ex_handle None 2000 ex_world)),
                    snd (snd (Done ex_handle None 2000 ex_world)))"
    by (metis prod.collapse)
  have u: "UniqueID (Event_eventData ex_handle) = ''e00000000001''"
    and c: "\<not> Canceled (CancelInfo (Event_eventData ex_handle))"
    and t: "eventId_Target (ID (Event_eventData ex_handle)) = ex_target"
    and l: "logBuffer ex_handle = ''step 1''"
    by (simp_all add: ex_handle_def ex_live_def cancelInfo_zero_def)
  from Done_writes_historical_row [OF h1 h2 h4] show ?thesis
    using h1 h2 h3 unfolding u t l by (auto simp: c)
qed

section \<open>The insert loop of newEvt\<close>

declare newEvt_loop.simps [simp del]

lemma find_SomeD: "find P xs = Some x \<Longrightarrow> P x \<and> x \<in> set xs"
  by (induction xs) (auto split: if_splits)

lemma FindId_row_id: "FindId k s = Some r \<Longrightarrow> row_id r = k"
  by (auto simp: FindId_def dest: find_SomeD)

lemma row_id_IdDoc: "row_id r = IdDoc t \<Longrightarrow> ObjId (ID r) = [] \<and> eventId_Target (ID r) = t"
  by (auto simp: row_id_def eventId_GetBSON_def split: if_splits)

lemma newEvt_loop_exit: "maxRetries + 1 \<le> i \<Longrightarrow> newEvt_loop env opts evt i err s = ((None, err), s)"
  by (subst newEvt_loop.simps) simp

lemma newEvt_loop_ok:
  assumes "i \<le> maxRetries" and "FindId (row_id (Event_eventData evt)) s = None"
  shows "newEvt_loop env opts evt i err s =
           ((Some evt, None),
            s\<lparr>oplog := oplog s @ [OpInsert (row_id (Event_eventData evt))],
              rows := rows s @ [(Event_eventData evt)
                                  \<lparr>ID := eventId_SetBSON (row_id (Event_eventData evt))\<rparr>],
              sent := sent s @ [MsgAdd (Opts_Target opts)]\<rparr>)"
  using assms by (subst newEvt_loop.simps) (simp add: Insert_ok)

lemma newEvt_loop_dup:
  assumes "i \<le> maxRetries" and "FindId (row_id (Event_eventData evt)) s = Some r"
  shows "newEvt_loop env opts evt i err s =
           (case newEvt_conflict env evt i (ErrDup (row_id (Event_eventData evt)))
                   (s\<lparr>oplog := oplog s @ [OpInsert (row_id (Event_eventData evt))]\<rparr>) of
              (err2, s2) \<Rightarrow> newEvt_loop env opts evt (i + 1) err2 s2)"
  using assms by (subst newEvt_loop.simps) (simp add: Insert_dup)

lemma checkIsExpired_stale:
  assumes "FindId (eventId_GetBSON eid) s = Some r"
    and "tExpire env > LockUpdateTime r + lockExpireTimeout"
  shows "checkIsExpired env s eid =
           (True, snd (snd (Done (Event_of r) (Some (expired_msg env r)) (tEnd env) s)))"
  using assms by (simp add: checkIsExpired_def Let_def expired_msg_def split: prod.splits)

lemma checkIsExpired_fresh:
  assumes "FindId (eventId_GetBSON eid) s = Some r"
    and "\<not> tExpire env > LockUpdateTime r + lockExpireTimeout"
  shows "checkIsExpired env s eid = (False, s)"
  using assms by (simp add: checkIsExpired_def Let_def)

lemma checkIsExpired_none:
  assumes "FindId (eventId_GetBSON eid) s = None"
  shows "checkIsExpired env s eid = (False, s)"
  using assms by (simp add: checkIsExpired_def)

lemma newEvt_conflict_last:
  assumes "maxRetries \<le> i" and "FindId (row_id (Event_eventData evt)) s = Some r"
  shows "newEvt_conflict env evt i (ErrDup k) s = (Some (ErrEventLocked (Event_of r)), s)"
  using assms by (simp add: newEvt_conflict_def row_id_def)

lemma newEvt_conflict_fresh:
  assumes "i < maxRetries" and "FindId (row_id (Event_eventData evt)) s = Some r"
    and "\<not> tExpire env > LockUpdateTime r + lockExpireTimeout"
  shows "newEvt_conflict env evt i (ErrDup k) s = (Some (ErrEventLocked (Event_of r)), s)"
  using assms checkIsExpired_fresh [of "ID (Event_eventData evt)" s r env]
  by (simp add: newEvt_conflict_def row_id_def)

lemma newEvt_conflict_stale:
  assumes "i < maxRetries" and "FindId (row_id (Event_eventData evt)) s = Some r"
    and "tExpire env > LockUpdateTime r + lockExpireTimeout"
  shows "newEvt_conflict env evt i (ErrDup k) s =
           (Some (ErrDup k), snd (snd (Done (Event_of r) (Some (expired_msg env r)) (tEnd env) s)))"
  using assms checkIsExpired_stale [of "ID (Event_eventData evt)" s r env]
  by (simp add: newEvt_conflict_def row_id_def)

lemma New_kind_eq: "Opts_Kind opts \<noteq> None \<Longrightarrow> newEvt_kind opts = Inr (New_kind opts)"
  by (auto simp: newEvt_kind_def New_kind_def)

lemma New_admits_loop:
  assumes "New_admits env opts s"
  shows "New env (Some opts) s =
           newEvt_loop env opts (newEvt_draft env opts (New_kind opts) (newEvt_owner opts)) 0 None s"
  using assms by (auto simp: New_admits_def New_def newEvt_def New_kind_eq)

lemma draft_fields:
  "ID (Event_eventData (newEvt_draft env opts k ow)) = \<lparr>eventId_Target = Opts_Target opts, ObjId = []\<rparr>"
  "row_id (Event_eventData (newEvt_draft env opts k ow)) = IdDoc (Opts_Target opts)"
  "UniqueID (Event_eventData (newEvt_draft env opts k ow)) = NewObjectId env"
  "Running (Event_eventData (newEvt_draft env opts k ow)) = True"
  "Kind (Event_eventData (newEvt_draft env opts k ow)) = k"
  "Owner (Event_eventData (newEvt_draft env opts k ow)) = ow"
  "Error (Event_eventData (newEvt_draft env opts k ow)) = []"
  "StartTime (Event_eventData (newEvt_draft env opts k ow)) = tStart env"
  "LockUpdateTime (Event_eventData (newEvt_draft env opts k ow)) = tStart env"
  "Target (Event_eventData (newEvt_draft env opts k ow)) = Opts_Target opts"
  by (simp_all add: newEvt_draft_def Let_def row_id_def eventId_GetBSON_def)

lemma stored_draft:
  "(Event_eventData (newEvt_draft env opts k ow))\<lparr>ID := eventId_SetBSON (IdDoc (Opts_Target opts))\<rparr>
     = Event_eventData (newEvt_draft env opts k ow)"
  by (simp add: newEvt_draft_def Let_def eventId_SetBSON_def)

lemma Event_of_fields [simp]:
  "Event_eventData (Event_of r) = r" "logBuffer (Event_of r) = []"
  by (simp_all add: Event_of_def)

subsection \<open>Insert requests of a failed creation\<close>

lemma newEvt_loop_locked_last:
  assumes "FindId (row_id (Event_eventData evt)) s = Some r"
  shows "newEvt_loop env opts evt maxRetries err s =
           ((None, Some (ErrEventLocked (Event_of r))),
            s\<lparr>oplog := oplog s @ [OpInsert (row_id (Event_eventData evt))]\<rparr>)"
proof -
  let ?s1 = "s\<lparr>oplog := oplog s @ [OpInsert (row_id (Event_eventData evt))]\<rparr>"
  have "FindId (row_id (Event_eventData evt)) ?s1 = Some r"
    using assms by (simp add: FindId_simps)
  from newEvt_conflict_last [OF _ this, of maxRetries]
  show ?thesis
    using newEvt_loop_dup [OF _ assms, of maxRetries env opts err]
    by (simp add: newEvt_loop_exit)
qed

lemma newEvt_loop_locked_first:
  assumes "FindId (row_id (Event_eventData evt)) s = Some r"
    and "\<not> tExpire env > LockUpdateTime r + lockExpireTimeout"
  shows "newEvt_loop env opts evt 0 err s =
           ((None, Some (ErrEventLocked (Event_of r))),
            s\<lparr>oplog := oplog s @ [OpInsert (row_id (Event_eventData evt)),
                                  OpInsert (row_id (Event_eventData evt))]\<rparr>)"
proof -
  let ?k = "row_id (Event_eventData evt)"
  let ?s1 = "s\<lparr>oplog := oplog s @ [OpInsert ?k]\<rparr>"
  have h1: "FindId ?k ?s1 = Some r"
    using assms by (simp add: FindId_simps)
  have "newEvt_conflict env evt 0 (ErrDup ?k) ?s1 = (Some (ErrEventLocked (Event_of r)), ?s1)"
    using newEvt_conflict_fresh [OF _ h1 assms(2), of 0] by (simp add: maxRetries_def)
  then have "newEvt_loop env opts evt 0 err s
               = newEvt_loop env opts evt maxRetries (Some (ErrEventLocked (Event_of r))) ?s1"
    using newEvt_loop_dup [OF _ assms(1), of 0 env opts err] by (simp add: maxRetries_def)
  then show ?thesis
    using newEvt_loop_locked_last [OF h1] by simp
qed

lemma inserts_on_append [simp]:
  "inserts_on k (xs @ ys) = inserts_on k xs + inserts_on k ys"
  by (simp add: inserts_on_def)

lemma inserts_on_simps [simp]:
  "inserts_on k [] = 0"
  "inserts_on k (OpInsert k' # ops) = (if k' = k then 1 else 0) + inserts_on k ops"
  "inserts_on k (OpRemoveId k' # ops) = inserts_on k ops"
  by (simp_all add: inserts_on_def)

lemma Insert_oplog: "oplog (snd (Insert d s)) = oplog s @ [OpInsert (row_id d)]"
  by (simp add: Insert_def Let_def)

lemma Insert_fails: "fst (Insert d s) = Some e \<Longrightarrow> snd (Insert d s) = s\<lparr>oplog := oplog s @ [OpInsert (row_id d)]\<rparr>"
  by (simp add: Insert_def Let_def split: if_splits)

lemma Event_done_oplog:
  "oplog (snd (snd (Event_done e evtErr cd False now s))) =
     (case connErr s of
        Some m \<Rightarrow> oplog s
      | None \<Rightarrow> oplog s @ [OpInsert (eventId_GetBSON
                                        \<lparr>eventId_Target = Target_zero,
                                         ObjId = UniqueID (Event_eventData e)\<rparr>),
                            OpRemoveId (eventId_GetBSON (ID (Event_eventData e)))])"
  by (simp add: Event_done_def Let_def RemoveId_eq Insert_oplog row_id_def done_data_fields
      split_beta split: option.splits)

lemma hist_key_not_target:
  "Target_IsValid t \<Longrightarrow> eventId_GetBSON \<lparr>eventId_Target = Target_zero, ObjId = uid\<rparr> \<noteq> IdDoc t"
  by (auto simp: eventId_GetBSON_def Target_IsValid_def Target_zero_def)

lemma Event_done_inserts_on:
  "Target_IsValid t \<Longrightarrow>
   inserts_on (IdDoc t) (oplog (snd (snd (Event_done e evtErr cd False now s))))
     = inserts_on (IdDoc t) (oplog s)"
  by (simp add: Event_done_oplog hist_key_not_target split: option.splits)

lemma checkIsExpired_inserts_on:
  "Target_IsValid t \<Longrightarrow>
   inserts_on (IdDoc t) (oplog (snd (checkIsExpired env s eid))) = inserts_on (IdDoc t) (oplog s)"
  by (simp add: checkIsExpired_def Let_def Done_def Event_done_inserts_on
      split_beta split: option.splits)

lemma newEvt_conflict_inserts_on:
  "Target_IsValid t \<Longrightarrow>
   inserts_on (IdDoc t) (oplog (snd (newEvt_conflict env evt i e s))) = inserts_on (IdDoc t) (oplog s)"
  using checkIsExpired_inserts_on [of t env s "ID (Event_eventData evt)"]
  by (simp add: newEvt_conflict_def Let_def split_beta split: option.splits)

lemma newEvt_loop_fail_inserts:
  assumes "row_id (Event_eventData evt) = IdDoc t" and "Target_IsValid t"
    and "fst (fst (newEvt_loop env opts evt i err s)) = None"
  shows "inserts_on (IdDoc t) (oplog (snd (newEvt_loop env opts evt i err s)))
           = inserts_on (IdDoc t) (oplog s) + (maxRetries + 1 - i)"
  using assms
proof (induction env opts evt i err s rule: newEvt_loop.induct)
  case (1 env opts evt i err s)
  show ?case
  proof (cases "i < maxRetries + 1")
    case False
    then show ?thesis by (simp add: newEvt_loop_exit)
  next
    case True
    obtain r1 s1 where ins: "Insert (Event_eventData evt) s = (r1, s1)" by force
    show ?thesis
    proof (cases r1)
      case None
      with ins True "1.prems"(3) show ?thesis
        by (subst (asm) newEvt_loop.simps) simp
    next
      case (Some err1)
      obtain err2 s2 where con: "newEvt_conflict env evt i err1 s1 = (err2, s2)" by force
      have step: "newEvt_loop env opts evt i err s = newEvt_loop env opts evt (i + 1) err2 s2"
        using True ins Some con by (subst newEvt_loop.simps) simp
      have "inserts_on (IdDoc t) (oplog s1) = inserts_on (IdDoc t) (oplog s) + 1"
        using Insert_oplog [of "Event_eventData evt" s] ins "1.prems"(1) by simp
      moreover have "inserts_on (IdDoc t) (oplog s2) = inserts_on (IdDoc t) (oplog s1)"
        using newEvt_conflict_inserts_on [OF "1.prems"(2), of env evt i err1 s1] con by simp
      moreover have "inserts_on (IdDoc t) (oplog (snd (newEvt_loop env opts evt (i + 1) err2 s2)))
                       = inserts_on (IdDoc t) (oplog s2) + (maxRetries + 1 - (i + 1))"
        using "1.IH" [OF True ins [symmetric] Some con [symmetric] "1.prems"(1,2)]
          "1.prems"(3) step by simp
      ultimately show ?thesis using step True by simp
    qed
  qed
qed

lemma newEvt_throttle_err:
  "newEvt_throttle env opts k s = Some e \<Longrightarrow> \<exists>sp. e = ErrThrottled sp (Opts_Target opts)"
  by (auto simp: newEvt_throttle_def Let_def split: option.splits if_splits)

lemma New_locked_admitted:
  assumes "snd (fst (New env optsp s)) = Some (ErrEventLocked x)"
  shows "\<exists>opts. optsp = Some opts \<and> New_admits env opts s"
proof (cases optsp)
  case None
  with assms show ?thesis by (simp add: New_def ErrNoOpts_def)
next
  case (Some opts)
  have "New_admits env opts s"
  proof (rule ccontr)
    assume n: "\<not> New_admits env opts s"
    have "\<exists>e. snd (fst (New env (Some opts) s)) = Some e \<and> (\<forall>y. e \<noteq> ErrEventLocked y)"
    proof (cases "Opts_Kind opts = None")
      case True
      then show ?thesis by (simp add: New_def ErrNoOwner_def ErrNoKind_def)
    next
      case False
      note kind = New_kind_eq [OF False]
      show ?thesis
      proof (cases "newEvt_throttle env opts (New_kind opts) s")
        case None
        with n False show ?thesis
          by (auto simp: New_def newEvt_def New_admits_def kind ErrNoOwner_def ErrNoTarget_def
              split: option.splits)
      next
        case (Some e)
        with newEvt_throttle_err [OF Some] False show ?thesis
          by (auto simp: New_def newEvt_def kind ErrNoOwner_def ErrNoTarget_def
              split: option.splits)
      qed
    qed
    with assms Some show False by auto
  qed
  with Some show ?thesis by simp
qed

lemma newEvt_loop_shape:
  "fst (fst (newEvt_loop env opts evt i err s)) = None
   \<or> fst (newEvt_loop env opts evt i err s) = (Some evt, None)"
proof (induction env opts evt i err s rule: newEvt_loop.induct)
  case (1 env opts evt i err s)
  show ?case
  proof (cases "i < maxRetries + 1")
    case False
    then show ?thesis by (simp add: newEvt_loop_exit)
  next
    case True
    obtain r1 s1 where ins: "Insert (Event_eventData evt) s = (r1, s1)" by force
    show ?thesis
    proof (cases r1)
      case None
      with ins True show ?thesis
        by (subst (1 2) newEvt_loop.simps) simp
    next
      case (Some err1)
      obtain err2 s2 where con: "newEvt_conflict env evt i err1 s1 = (err2, s2)" by force
      have step: "newEvt_loop env opts evt i err s = newEvt_loop env opts evt (i + 1) err2 s2"
        using True ins Some con by (subst newEvt_loop.simps) simp
      from "1.IH" [OF True ins [symmetric] Some con [symmetric]] show ?thesis
        by (simp add: step)
    qed
  qed
qed

text \<open>
  Claim C2. (1) When a call of \<^verbatim>\<open>New\<close> reaches its insert, the target has a live row \<open>r\<close>
  and \<open>r\<close> is not older than \<open>lockExpireTimeout\<close>, \<^verbatim>\<open>New\<close> fails with \<^verbatim>\<open>ErrEventLocked\<close>
  carrying \<open>r\<close> as read from the store (so with the unique id of \<open>r\<close>), after two insert
  requests and nothing else. (2) When the loop makes its retry (\<open>i = maxRetries\<close>), in
  whatever state the store then is, and the insert conflicts with a row \<open>r\<close>, the loop
  ends with \<^verbatim>\<open>ErrEventLocked\<close> carrying \<open>r\<close>. (3) Whenever \<^verbatim>\<open>New\<close> returns \<^verbatim>\<open>ErrEventLocked\<close>,
  it has sent exactly two insert requests for the target: the error is returned only
  after the retry.
\<close>

theorem New_fails_locked:
  "(New_admits env opts s \<and> FindId (IdDoc (Opts_Target opts)) s = Some r
      \<and> \<not> LockUpdateTime r < tExpire env - lockExpireTimeout
    \<longrightarrow> New env (Some opts) s =
          ((None, Some (ErrEventLocked (Event_of r))),
           s\<lparr>oplog := oplog s @ [OpInsert (IdDoc (Opts_Target opts)),
                                 OpInsert (IdDoc (Opts_Target opts))]\<rparr>)
        \<and> UniqueID (Event_eventData (Event_of r)) = UniqueID r)
   \<and> (FindId (row_id (Event_eventData evt)) s = Some r
    \<longrightarrow> newEvt_loop env opts evt maxRetries err s =
          ((None, Some (ErrEventLocked (Event_of r))),
           s\<lparr>oplog := oplog s @ [OpInsert (row_id (Event_eventData evt))]\<rparr>))
   \<and> (snd (fst (New env optsp s)) = Some (ErrEventLocked x)
    \<longrightarrow> (\<exists>opts'. optsp = Some opts'
          \<and> inserts_on (IdDoc (Opts_Target opts')) (oplog (snd (New env optsp s)))
              = inserts_on (IdDoc (Opts_Target opts')) (oplog s) + 2))"
proof (intro conjI impI)
  assume a: "New_admits env opts s \<and> FindId (IdDoc (Opts_Target opts)) s = Some r
               \<and> \<not> LockUpdateTime r < tExpire env - lockExpireTimeout"
  let ?evt = "newEvt_draft env opts (New_kind opts) (newEvt_owner opts)"
  have h: "FindId (row_id (Event_eventData ?evt)) s = Some r"
    using a by (simp add: draft_fields)
  have f: "\<not> tExpire env > LockUpdateTime r + lockExpireTimeout"
    using a by simp
  show "New env (Some opts) s =
          ((None, Some (ErrEventLocked (Event_of r))),
           s\<lparr>oplog := oplog s @ [OpInsert (IdDoc (Opts_Target opts)),
                                 OpInsert (IdDoc (Opts_Target opts))]\<rparr>)"
    using a newEvt_loop_locked_first [OF h f, of opts None]
    by (simp add: New_admits_loop draft_fields)
  show "UniqueID (Event_eventData (Event_of r)) = UniqueID r" by simp
next
  assume "FindId (row_id (Event_eventData evt)) s = Some r"
  then show "newEvt_loop env opts evt maxRetries err s =
          ((None, Some (ErrEventLocked (Event_of r))),
           s\<lparr>oplog := oplog s @ [OpInsert (row_id (Event_eventData evt))]\<rparr>)"
    by (rule newEvt_loop_locked_last)
next
  assume l: "snd (fst (New env optsp s)) = Some (ErrEventLocked x)"
  from New_locked_admitted [OF l] obtain opts' where o: "optsp = Some opts'"
    and adm: "New_admits env opts' s" by blast
  let ?evt = "newEvt_draft env opts' (New_kind opts') (newEvt_owner opts')"
  have eq: "New env optsp s = newEvt_loop env opts' ?evt 0 None s"
    using adm o by (simp add: New_admits_loop)
  have none: "fst (fst (newEvt_loop env opts' ?evt 0 None s)) = None"
    using newEvt_loop_shape [of env opts' ?evt 0 None s] l eq by auto
  have valid: "Target_IsValid (Opts_Target opts')" using adm by (simp add: New_admits_def)
  from newEvt_loop_fail_inserts [OF _ valid none] o eq
  show "\<exists>opts'. optsp = Some opts'
          \<and> inserts_on (IdDoc (Opts_Target opts')) (oplog (snd (New env optsp s)))
              = inserts_on (IdDoc (Opts_Target opts')) (oplog s) + 2"
    by (simp add: draft_fields maxRetries_def)
qed

theorem New_fails_locked_witness:
  "New_admits (ex_env 2000) ex_opts ex_world
   \<and> FindId (IdDoc ex_target) ex_world = Some ex_live
   \<and> \<not> LockUpdateTime ex_live < tExpire (ex_env 2000) - lockExpireTimeout
   \<and> New (ex_env 2000) (Some ex_opts) ex_world =
        ((None, Some (ErrEventLocked (Event_of ex_live))),
         ex_world\<lparr>oplog := [OpInsert (IdDoc ex_target), OpInsert (IdDoc ex_target)]\<rparr>)
   \<and> newEvt_loop (ex_env 2000) ex_opts (Event_of ex_live) maxRetries None ex_world =
        ((None, Some (ErrEventLocked (Event_of ex_live))),
         ex_world\<lparr>oplog := [OpInsert (IdDoc ex_target)]\<rparr>)
   \<and> inserts_on (IdDoc ex_target) (oplog (snd (New (ex_env 2000) (Some ex_opts) ex_world))) = 2"
proof -
  have h1: "New_admits (ex_env 2000) ex_opts ex_world"
    by (simp add: New_admits_def ex_defs Target_IsValid_def newEvt_throttle_def getThrottling_def)
  have h2: "FindId (IdDoc (Opts_Target ex_opts)) ex_world = Some ex_live"
    by (simp add: ex_defs FindId_def row_id_def eventId_GetBSON_def)
  have h3: "\<not> LockUpdateTime ex_live < tExpire (ex_env 2000) - lockExpireTimeout"
    by (simp add: ex_defs lockExpireTimeout_def)
  have h4: "FindId (row_id (Event_eventData (Event_of ex_live))) ex_world = Some ex_live"
    by (simp add: ex_defs FindId_def row_id_def eventId_GetBSON_def)
  have t: "Opts_Target ex_opts = ex_target" and k: "row_id ex_live = IdDoc ex_target"
    and o: "oplog ex_world = []"
    by (simp_all add: ex_defs row_id_def eventId_GetBSON_def)
  note inst = New_fails_locked [of "ex_env 2000" ex_opts ex_world ex_live "Event_of ex_live" None
      "Some ex_opts" "Event_of ex_live"]
  from inst h1 h2 h3 have a: "New (ex_env 2000) (Some ex_opts) ex_world =
        ((None, Some (ErrEventLocked (Event_of ex_live))),
         ex_world\<lparr>oplog := [OpInsert (IdDoc ex_target), OpInsert (IdDoc ex_target)]\<rparr>)"
    by (simp add: t o)
  from inst h4 have b: "newEvt_loop (ex_env 2000) ex_opts (Event_of ex_live) maxRetries None ex_world =
        ((None, Some (ErrEventLocked (Event_of ex_live))),
         ex_world\<lparr>oplog := [OpInsert (IdDoc ex_target)]\<rparr>)"
    by (simp add: k o)
  from a have "snd (fst (New (ex_env 2000) (Some ex_opts) ex_world))
                 = Some (ErrEventLocked (Event_of ex_live))" by simp
  with inst have "inserts_on (IdDoc ex_target)
                   (oplog (snd (New (ex_env 2000) (Some ex_opts) ex_world))) = 2"
    by (simp add: t o)
  with a b h1 h2 h3 show ?thesis by (simp add: t)
qed

section \<open>Reclaiming an expired lock\<close>

lemma Insert_rows:
  "rows (snd (Insert d s)) =
     (if FindId (row_id d) s = None then rows s @ [d\<lparr>ID := eventId_SetBSON (row_id d)\<rparr>]
      else rows s)"
  by (cases "FindId (row_id d) s") (simp_all add: Insert_ok Insert_dup)

lemma row_id_stored: "row_id (d\<lparr>ID := eventId_SetBSON (row_id d)\<rparr>) = row_id d"
  by (simp add: row_id_def GetBSON_SetBSON)

lemma Event_done_rows:
  assumes "connErr s = None"
  shows "rows (snd (snd (Event_done e evtErr cd False now s))) =
           remove_first (\<lambda>x. row_id x = eventId_GetBSON (ID (Event_eventData e)))
             (rows (snd (Insert (done_data e evtErr cd now
                                   (s\<lparr>sent := sent s @ [MsgRemove (Target (Event_eventData e))]\<rparr>))
                           (s\<lparr>sent := sent s @ [MsgRemove (Target (Event_eventData e))]\<rparr>))))"
  using assms by (simp add: Event_done_def Let_def split_beta RemoveId_eq)

lemma Event_done_removes_live:
  assumes "connErr s = None" and "distinct (map row_id (rows s))"
    and "ObjId (ID (Event_eventData e)) = []"
    and "Target_IsValid (eventId_Target (ID (Event_eventData e)))"
  shows "FindId (IdDoc (eventId_Target (ID (Event_eventData e))))
           (snd (snd (Event_done e evtErr cd False now s))) = None"
proof -
  let ?k = "IdDoc (eventId_Target (ID (Event_eventData e)))"
  let ?s1 = "s\<lparr>sent := sent s @ [MsgRemove (Target (Event_eventData e))]\<rparr>"
  let ?d = "done_data e evtErr cd now ?s1"
  let ?live = "\<lambda>x. row_id x = ?k"
  have key: "eventId_GetBSON (ID (Event_eventData e)) = ?k"
    using assms(3) by (rule GetBSON_live)
  have other: "row_id ?d \<noteq> ?k"
    using hist_key_not_target [OF assms(4)] by (simp add: row_id_def done_data_fields)
  have gone: "find ?live (remove_first ?live (rows s)) = None"
    using assms(2) by (rule find_remove_first_same)
  have "find ?live (remove_first ?live (rows (snd (Insert ?d ?s1)))) = None"
    using other gone
    by (simp add: Insert_rows FindId_simps remove_first_append_keep row_id_stored find_append)
  then show ?thesis
    by (simp add: FindId_def Event_done_rows [OF assms(1)] key)
qed

lemma Event_done_keeps_other:
  assumes "connErr s = None" and "FindId k' s = Some x"
    and "k' \<noteq> eventId_GetBSON (ID (Event_eventData e))"
  shows "FindId k' (snd (snd (Event_done e evtErr cd False now s))) = Some x"
  using assms
  by (simp add: FindId_def Event_done_rows find_remove_first_other Insert_rows FindId_simps
      find_append)

lemma Event_done_writes_twin:
  assumes "connErr s = None" and "ObjId (ID (Event_eventData e)) = []"
    and "UniqueID (Event_eventData e) \<noteq> []"
    and "FindId (IdObj (UniqueID (Event_eventData e))) s = None"
  shows "\<exists>h. FindId (IdObj (UniqueID (Event_eventData e)))
                (snd (snd (Event_done e evtErr cd False now s))) = Some h
             \<and> Running h = False \<and> UniqueID h = UniqueID (Event_eventData e)
             \<and> EndTime h = now \<and> Log h = logBuffer e
             \<and> Error h = (case evtErr of
                            Some msg \<Rightarrow> msg
                          | None \<Rightarrow> if Canceled (CancelInfo (Event_eventData e))
                                     then ''canceled by user request''
                                     else Error (Event_eventData e))"
proof -
  let ?live = "\<lambda>x. row_id x = IdDoc (eventId_Target (ID (Event_eventData e)))"
  let ?h = "done_data e evtErr cd now
              (s\<lparr>sent := sent s @ [MsgRemove (Target (Event_eventData e))]\<rparr>)"
  have "find (\<lambda>x. row_id x = IdObj (UniqueID (Event_eventData e)))
          (remove_first ?live (rows s)) = None"
    using assms(4) by (simp add: find_remove_first_other FindId_def)
  then have "FindId (IdObj (UniqueID (Event_eventData e)))
               (snd (snd (Event_done e evtErr cd False now s))) = Some ?h"
    by (simp add: Done_effect [OF assms] FindId_simps find_append row_id_done_data [OF assms(3)])
  then show ?thesis
    by (intro exI [of _ ?h]) (simp add: done_data_fields)
qed

text \<open>
  Claim C1, amended. Let a call of \<^verbatim>\<open>New\<close> reach its insert, and let the target have a
  live row \<open>r\<close> whose \<^verbatim>\<open>lockUpdateTime\<close> is older than the time read by \<^verbatim>\<open>checkIsExpired\<close>
  minus \<open>lockExpireTimeout\<close>. Then \<^verbatim>\<open>New\<close> succeeds with a fresh running event, which is
  now the live row of the target, and the requests sent to the store were: the insert
  that conflicted, the insert of a historical twin of \<open>r\<close>, the removal of the stale
  live row, and the one retried insert. When the unique id of \<open>r\<close> is not empty and no
  row is keyed by it yet, the twin is written: the stale event is found under its unique id, finished,
  with the error \<open>event expired, no update for ...\<close>. When a row is already keyed by that
  unique id, that row stays as it was.
\<close>

theorem New_reclaims_expired_lock:
  assumes adm: "New_admits env opts s"
    and uniq: "distinct (map row_id (rows s))"
    and holder: "FindId (IdDoc (Opts_Target opts)) s = Some r"
    and stale: "LockUpdateTime r < tExpire env - lockExpireTimeout"
  shows "\<exists>e s'. New env (Some opts) s = ((Some e, None), s')
           \<and> Running (Event_eventData e)
           \<and> UniqueID (Event_eventData e) = NewObjectId env
           \<and> FindId (IdDoc (Opts_Target opts)) s' = Some (Event_eventData e)
           \<and> oplog s' = oplog s @ [OpInsert (IdDoc (Opts_Target opts)),
                                   OpInsert (eventId_GetBSON
                                     \<lparr>eventId_Target = Target_zero, ObjId = UniqueID r\<rparr>),
                                   OpRemoveId (IdDoc (Opts_Target opts)),
                                   OpInsert (IdDoc (Opts_Target opts))]
           \<and> (UniqueID r \<noteq> [] \<and> FindId (IdObj (UniqueID r)) s = None
               \<longrightarrow> (\<exists>h. FindId (IdObj (UniqueID r)) s' = Some h
                      \<and> Running h = False \<and> UniqueID h = UniqueID r
                      \<and> EndTime h = tEnd env
                      \<and> Error h = ''event expired, no update for '' @
                                    fmtDuration env (tSince env - LockUpdateTime r)))
           \<and> (FindId (IdObj (UniqueID r)) s = Some x
               \<longrightarrow> FindId (IdObj (UniqueID r)) s' = Some x)"
proof -
  let ?k = "IdDoc (Opts_Target opts)"
  let ?evt = "newEvt_draft env opts (New_kind opts) (newEvt_owner opts)"
  let ?s1 = "s\<lparr>oplog := oplog s @ [OpInsert ?k]\<rparr>"
  let ?s2 = "snd (snd (Event_done (Event_of r) (Some (expired_msg env r)) BNil False (tEnd env) ?s1))"
  let ?s3 = "?s2\<lparr>oplog := oplog ?s2 @ [OpInsert ?k],
                  rows := rows ?s2 @ [Event_eventData ?evt],
                  sent := sent ?s2 @ [MsgAdd (Opts_Target opts)]\<rparr>"
  have rid: "row_id (Event_eventData ?evt) = ?k" by (simp add: draft_fields)
  from holder have r_id: "row_id r = ?k" by (rule FindId_row_id)
  then have r_live: "ObjId (ID r) = []" and r_target: "eventId_Target (ID r) = Opts_Target opts"
    using row_id_IdDoc by blast+
  from adm have conn: "connErr ?s1 = None" and valid: "Target_IsValid (Opts_Target opts)"
    by (simp_all add: New_admits_def)
  have uniq1: "distinct (map row_id (rows ?s1))" using uniq by simp
  have exp: "tExpire env > LockUpdateTime r + lockExpireTimeout" using stale by simp
  have holder1: "FindId (row_id (Event_eventData ?evt)) ?s1 = Some r"
    using holder by (simp add: rid FindId_simps)
  have reclaimed: "newEvt_conflict env ?evt 0 (ErrDup ?k) ?s1 = (Some (ErrDup ?k), ?s2)"
    using newEvt_conflict_stale [OF _ holder1 exp, of 0 ?k]
    by (simp add: maxRetries_def Done_def)
  have free: "FindId (row_id (Event_eventData ?evt)) ?s2 = None"
    using Event_done_removes_live [of ?s1 "Event_of r" "Some (expired_msg env r)" BNil "tEnd env"]
      conn uniq1 r_live r_target valid
    by (simp add: rid)
  have log2: "oplog ?s2 = oplog s @ [OpInsert ?k,
                 OpInsert (eventId_GetBSON \<lparr>eventId_Target = Target_zero, ObjId = UniqueID r\<rparr>),
                 OpRemoveId ?k]"
    using conn r_live r_target by (simp add: Event_done_oplog GetBSON_live)
  have "New env (Some opts) s = newEvt_loop env opts ?evt 0 None s"
    using adm by (rule New_admits_loop)
  also have "\<dots> = newEvt_loop env opts ?evt 1 (Some (ErrDup ?k)) ?s2"
    using newEvt_loop_dup [of 0 ?evt s r env opts None] holder reclaimed
    by (simp add: rid maxRetries_def)
  also have "\<dots> = ((Some ?evt, None), ?s3)"
    using newEvt_loop_ok [OF _ free, of 1 env opts "Some (ErrDup ?k)"]
    by (simp add: rid maxRetries_def stored_draft)
  finally have new: "New env (Some opts) s = ((Some ?evt, None), ?s3)" .
  have mine: "FindId ?k ?s3 = Some (Event_eventData ?evt)"
    using free by (simp add: FindId_simps find_append rid FindId_def)
  have log3: "oplog ?s3 = oplog s @ [OpInsert ?k,
                 OpInsert (eventId_GetBSON \<lparr>eventId_Target = Target_zero, ObjId = UniqueID r\<rparr>),
                 OpRemoveId ?k, OpInsert ?k]"
    by (simp add: log2)
  have lift: "FindId (IdObj (UniqueID r)) ?s3 = Some y" if "FindId (IdObj (UniqueID r)) ?s2 = Some y" for y
    using that by (simp add: FindId_simps find_append FindId_def)
  have twin: "\<exists>h. FindId (IdObj (UniqueID r)) ?s3 = Some h
                 \<and> Running h = False \<and> UniqueID h = UniqueID r \<and> EndTime h = tEnd env
                 \<and> Error h = ''event expired, no update for '' @
                               fmtDuration env (tSince env - LockUpdateTime r)"
    if "UniqueID r \<noteq> [] \<and> FindId (IdObj (UniqueID r)) s = None"
    using Event_done_writes_twin [of ?s1 "Event_of r" "Some (expired_msg env r)" BNil "tEnd env"]
      conn r_live that lift
    by (auto simp: FindId_simps expired_msg_def)
  have kept: "FindId (IdObj (UniqueID r)) ?s3 = Some x" if "FindId (IdObj (UniqueID r)) s = Some x"
    using Event_done_keeps_other [of ?s1 "IdObj (UniqueID r)" x "Event_of r"
        "Some (expired_msg env r)" BNil "tEnd env"] conn that r_live lift
    by (simp add: FindId_simps GetBSON_live)
  from new mine log3 twin kept show ?thesis
    by (simp add: draft_fields)
qed

text \<open>
  Claim C1 as it is stated fails where the stale live row already has its historical
  twin (a holder that died between the insert and the removal of \<^verbatim>\<open>Done\<close>): \<^verbatim>\<open>New\<close>
  succeeds, but the insert of a twin is refused and \<^verbatim>\<open>checkIsExpired\<close> drops that error,
  so no row carries an \<open>event expired\<close> error; the row under the stale unique id is the
  old one, with its empty error.
\<close>

theorem New_reclaims_expired_lock_counterexample:
  "New_admits (ex_env 400000000000) ex_opts ex_world_twin
   \<and> FindId (IdDoc ex_target) ex_world_twin = Some ex_live
   \<and> LockUpdateTime ex_live < tExpire (ex_env 400000000000) - lockExpireTimeout
   \<and> snd (fst (New (ex_env 400000000000) (Some ex_opts) ex_world_twin)) = None
   \<and> map UniqueID (rows (snd (New (ex_env 400000000000) (Some ex_opts) ex_world_twin)))
       = [''e00000000001'', ''e00000000002'']
   \<and> map Error (rows (snd (New (ex_env 400000000000) (Some ex_opts) ex_world_twin))) = [[], []]
   \<and> map Running (rows (snd (New (ex_env 400000000000) (Some ex_opts) ex_world_twin)))
       = [False, True]"
proof -
  have adm: "New_admits (ex_env 400000000000) ex_opts ex_world_twin"
    by (simp add: New_admits_def ex_defs ex_world_twin_def Target_IsValid_def newEvt_throttle_def
        getThrottling_def)
  have h: "FindId (IdDoc ex_target) ex_world_twin = Some ex_live"
    by (simp add: ex_defs ex_world_twin_def FindId_def row_id_def eventId_GetBSON_def)
  have st: "LockUpdateTime ex_live < tExpire (ex_env 400000000000) - lockExpireTimeout"
    by (simp add: ex_defs lockExpireTimeout_def)
  have run: "New (ex_env 400000000000) (Some ex_opts) ex_world_twin
      = ((Some (newEvt_draft (ex_env 400000000000) ex_opts (New_kind ex_opts) (newEvt_owner ex_opts)),
          None),
         ex_world_twin
           \<lparr>oplog := [OpInsert (IdDoc ex_target), OpInsert (IdObj ''e00000000001''),
                      OpRemoveId (IdDoc ex_target), OpInsert (IdDoc ex_target)],
            rows := [ex_finished ''e00000000001'' 1000,
                     Event_eventData (newEvt_draft (ex_env 400000000000) ex_opts (New_kind ex_opts)
                                        (newEvt_owner ex_opts))],
            sent := [MsgRemove ex_target, MsgAdd ex_target]\<rparr>)"
    unfolding New_admits_loop [OF adm]
    by (simp add: newEvt_loop.simps [of _ _ _ 0] newEvt_loop.simps [of _ _ _ "Suc 0"]
        maxRetries_def newEvt_conflict_def checkIsExpired_def Done_def Event_done_def done_data_def
        Insert_def RemoveId_def FindId_def row_id_def eventId_GetBSON_def eventId_SetBSON_def
        newEvt_draft_def ex_defs ex_world_twin_def ex_finished_def lockExpireTimeout_def
        Event_of_def Let_def Target_zero_def)
  have n: "NewObjectId (ex_env 400000000000) = ''e00000000002''"
    by (simp add: ex_env_def)
  have "snd (fst (New (ex_env 400000000000) (Some ex_opts) ex_world_twin)) = None
   \<and> map UniqueID (rows (snd (New (ex_env 400000000000) (Some ex_opts) ex_world_twin)))
       = [''e00000000001'', ''e00000000002'']
   \<and> map Error (rows (snd (New (ex_env 400000000000) (Some ex_opts) ex_world_twin))) = [[], []]
   \<and> map Running (rows (snd (New (ex_env 400000000000) (Some ex_opts) ex_world_twin)))
       = [False, True]"
    unfolding run by (simp add: ex_finished_def ex_live_def newEvt_draft_def n Let_def)
  with adm h st show ?thesis by simp
qed

theorem New_reclaims_expired_lock_witness:
  "New_admits (ex_env 400000000000) ex_opts ex_world
   \<and> FindId (IdDoc ex_target) ex_world = Some ex_live
   \<and> LockUpdateTime ex_live < tExpire (ex_env 400000000000) - lockExpireTimeout
   \<and> UniqueID ex_live \<noteq> [] \<and> FindId (IdObj (UniqueID ex_live)) ex_world = None
   \<and> (\<exists>e s'. New (ex_env 400000000000) (Some ex_opts) ex_world = ((Some e, None), s')
          \<and> Running (Event_eventData e)
          \<and> UniqueID (Event_eventData e) = ''e00000000002''
          \<and> FindId (IdDoc ex_target) s' = Some (Event_eventData e)
          \<and> (\<exists>h. FindId (IdObj ''e00000000001'') s' = Some h
                 \<and> Error h = ''event expired, no update for 6m0s''))
   \<and> New_admits (ex_env 400000000000) ex_opts ex_world_twin
   \<and> FindId (IdDoc ex_target) ex_world_twin = Some ex_live
   \<and> FindId (IdObj (UniqueID ex_live)) ex_world_twin = Some (ex_finished ''e00000000001'' 1000)
   \<and> (\<exists>e s'. New (ex_env 400000000000) (Some ex_opts) ex_world_twin = ((Some e, None), s')
          \<and> FindId (IdDoc ex_target) s' = Some (Event_eventData e)
          \<and> FindId (IdObj ''e00000000001'') s' = Some (ex_finished ''e00000000001'' 1000))"
proof -
  let ?env = "ex_env 400000000000"
  have a1: "New_admits ?env ex_opts ex_world" and a2: "New_admits ?env ex_opts ex_world_twin"
    by (simp_all add: New_admits_def ex_defs ex_world_twin_def Target_IsValid_def
        newEvt_throttle_def getThrottling_def)
  have u1: "distinct (map row_id (rows ex_world))"
    and u2: "distinct (map row_id (rows ex_world_twin))"
    by (simp_all add: ex_defs ex_world_twin_def ex_finished_def row_id_def eventId_GetBSON_def)
  have f1: "FindId (IdDoc (Opts_Target ex_opts)) ex_world = Some ex_live"
    and f2: "FindId (IdDoc (Opts_Target ex_opts)) ex_world_twin = Some ex_live"
    by (simp_all add: ex_defs ex_world_twin_def FindId_def row_id_def eventId_GetBSON_def)
  have st: "LockUpdateTime ex_live < tExpire ?env - lockExpireTimeout"
    by (simp add: ex_defs lockExpireTimeout_def)
  have g1: "UniqueID ex_live \<noteq> [] \<and> FindId (IdObj (UniqueID ex_live)) ex_world = None"
    by (simp add: ex_defs FindId_def row_id_def eventId_GetBSON_def)
  have g2: "FindId (IdObj (UniqueID ex_live)) ex_world_twin = Some (ex_finished ''e00000000001'' 1000)"
    by (simp add: ex_defs ex_world_twin_def ex_finished_def FindId_def row_id_def
        eventId_GetBSON_def)
  have t: "Opts_Target ex_opts = ex_target" and u: "UniqueID ex_live = ''e00000000001''"
    and n: "NewObjectId ?env = ''e00000000002''"
    and f: "fmtDuration ?env = (\<lambda>d. ''6m0s'')"
    by (simp_all add: ex_opts_def ex_live_def ex_env_def)
  have p1: "\<exists>e s'. New ?env (Some ex_opts) ex_world = ((Some e, None), s')
          \<and> Running (Event_eventData e)
          \<and> UniqueID (Event_eventData e) = ''e00000000002''
          \<and> FindId (IdDoc ex_target) s' = Some (Event_eventData e)
          \<and> (\<exists>h. FindId (IdObj ''e00000000001'') s' = Some h
                 \<and> Error h = ''event expired, no update for 6m0s'')"
    using New_reclaims_expired_lock [OF a1 u1 f1 st] g1 unfolding t u n f by auto
  have p2: "\<exists>e s'. New ?env (Some ex_opts) ex_world_twin = ((Some e, None), s')
          \<and> FindId (IdDoc ex_target) s' = Some (Event_eventData e)
          \<and> FindId (IdObj ''e00000000001'') s' = Some (ex_finished ''e00000000001'' 1000)"
    using New_reclaims_expired_lock [OF a2 u2 f2 st, of "ex_finished ''e00000000001'' 1000"] g2
    unfolding t u n f by auto
  from a1 a2 f1 f2 st g1 g2 p1 p2 show ?thesis unfolding t u by simp
qed

section \<open>Acknowledging a cancellation\<close>

lemma find_key_and_None:
  "find (\<lambda>x. f x = k) xs = None \<Longrightarrow> find (\<lambda>x. f x = k \<and> P x) xs = None"
  by (induction xs) (auto split: if_splits)

lemma find_key_and:
  "distinct (map f xs) \<Longrightarrow> find (\<lambda>x. f x = k) xs = Some r \<Longrightarrow>
   find (\<lambda>x. f x = k \<and> P x) xs = (if P r then Some r else None)"
proof (induction xs)
  case Nil
  then show ?case by simp
next
  case (Cons x xs)
  show ?case
  proof (cases "f x = k")
    case True
    with Cons.prems have "r = x" and "k \<notin> f ` set xs" by auto
    then show ?thesis using True by (simp add: find_key_None find_key_and_None)
  next
    case False
    with Cons show ?thesis by simp
  qed
qed

lemma find_update_first_same:
  assumes "\<And>x. f (g x) = f x"
  shows "find (\<lambda>x. f x = k \<and> P x) xs = Some r \<Longrightarrow> distinct (map f xs) \<Longrightarrow>
         find (\<lambda>x. f x = k) (update_first (\<lambda>x. f x = k \<and> P x) g xs) = Some (g r)"
proof (induction xs)
  case Nil
  then show ?case by simp
next
  case (Cons x xs)
  show ?case
  proof (cases "f x = k")
    case True
    with Cons.prems have "k \<notin> f ` set xs" by auto
    then have "find (\<lambda>x. f x = k \<and> P x) xs = None"
      by (simp add: find_key_None find_key_and_None)
    with Cons.prems True show ?thesis by (simp add: assms split: if_splits)
  next
    case False
    with Cons show ?thesis by simp
  qed
qed

lemma find_update_first_other:
  assumes "\<And>x. f (g x) = f x"
  shows "k' \<noteq> k \<Longrightarrow>
         find (\<lambda>x. f x = k') (update_first (\<lambda>x. f x = k \<and> P x) g xs) = find (\<lambda>x. f x = k') xs"
  by (induction xs) (auto simp: assms)

lemma Apply_found:
  assumes "find (\<lambda>x. row_id x = k \<and> sel x) (rows s) = Some r"
  shows "Apply k sel upd s =
           (Some (upd r), s\<lparr>oplog := oplog s @ [OpApply k],
                            rows := update_first (\<lambda>x. row_id x = k \<and> sel x) upd (rows s)\<rparr>)"
  using assms by (simp add: Apply_def Let_def)

lemma Apply_missing:
  assumes "find (\<lambda>x. row_id x = k \<and> sel x) (rows s) = None"
  shows "Apply k sel upd s = (None, s\<lparr>oplog := oplog s @ [OpApply k]\<rparr>)"
  using assms by (simp add: Apply_def Let_def)

lemma row_id_CancelInfo [simp]: "row_id (r\<lparr>CancelInfo := c\<rparr>) = row_id r"
  by (simp add: row_id_def)

text \<open>
  Claim C7. \<^verbatim>\<open>AckCancel\<close> returns \<^verbatim>\<open>ErrNotCancelable\<close>, and leaves the store alone, when the
  handle is not cancelable or not running. Otherwise (the store being reachable and
  \<^verbatim>\<open>_id\<close> unique), if the row with the handle's id has \<^verbatim>\<open>cancelInfo.asked\<close> set, one
  find-and-modify request sets \<^verbatim>\<open>ackTime\<close> to now and \<^verbatim>\<open>canceled\<close> to true on that row and
  on no other, and the handle holds the new row; and if there is no row with the
  handle's id, or that row has \<^verbatim>\<open>asked\<close> false, \<^verbatim>\<open>AckCancel\<close> returns \<^verbatim>\<open>ErrEventNotFound\<close>
  and no row changes.
\<close>

theorem AckCancel_cases:
  "(\<not> Cancelable (Event_eventData e) \<or> \<not> Running (Event_eventData e)
      \<longrightarrow> AckCancel e now s = (Some ErrNotCancelable, e, s))
   \<and> (Cancelable (Event_eventData e) \<and> Running (Event_eventData e) \<and> connErr s = None
       \<and> distinct (map row_id (rows s))
       \<and> FindId (eventId_GetBSON (ID (Event_eventData e))) s = Some r \<and> Asked (CancelInfo r)
      \<longrightarrow> (\<exists>s'. AckCancel e now s =
                  (None,
                   e\<lparr>Event_eventData :=
                       r\<lparr>CancelInfo := (CancelInfo r)\<lparr>AckTime := now, Canceled := True\<rparr>\<rparr>\<rparr>,
                   s')
               \<and> FindId (eventId_GetBSON (ID (Event_eventData e))) s'
                   = Some (r\<lparr>CancelInfo := (CancelInfo r)\<lparr>AckTime := now, Canceled := True\<rparr>\<rparr>)
               \<and> (\<forall>k'. k' \<noteq> eventId_GetBSON (ID (Event_eventData e))
                      \<longrightarrow> FindId k' s' = FindId k' s)
               \<and> oplog s' = oplog s @ [OpApply (eventId_GetBSON (ID (Event_eventData e)))]))
   \<and> (Cancelable (Event_eventData e) \<and> Running (Event_eventData e) \<and> connErr s = None
       \<and> distinct (map row_id (rows s))
       \<and> (FindId (eventId_GetBSON (ID (Event_eventData e))) s = None
          \<or> (\<exists>r0. FindId (eventId_GetBSON (ID (Event_eventData e))) s = Some r0
                    \<and> \<not> Asked (CancelInfo r0)))
      \<longrightarrow> AckCancel e now s =
            (Some ErrEventNotFound, e,
             s\<lparr>oplog := oplog s @ [OpApply (eventId_GetBSON (ID (Event_eventData e)))]\<rparr>))"
proof (intro conjI impI)
  assume "\<not> Cancelable (Event_eventData e) \<or> \<not> Running (Event_eventData e)"
  then show "AckCancel e now s = (Some ErrNotCancelable, e, s)"
    by (auto simp: AckCancel_def Let_def)
next
  let ?k = "eventId_GetBSON (ID (Event_eventData e))"
  let ?q = "\<lambda>x. row_id x = ?k \<and> Asked (CancelInfo x)"
  let ?upd = "\<lambda>r. r\<lparr>CancelInfo := (CancelInfo r)\<lparr>AckTime := now, Canceled := True\<rparr>\<rparr>"
  assume a: "Cancelable (Event_eventData e) \<and> Running (Event_eventData e) \<and> connErr s = None
       \<and> distinct (map row_id (rows s))
       \<and> FindId ?k s = Some r \<and> Asked (CancelInfo r)"
  then have f: "find ?q (rows s) = Some r"
    using find_key_and [of row_id "rows s" ?k r "\<lambda>x. Asked (CancelInfo x)"]
    by (simp add: FindId_def)
  let ?s' = "s\<lparr>oplog := oplog s @ [OpApply ?k], rows := update_first ?q ?upd (rows s)\<rparr>"
  have "AckCancel e now s = (None, e\<lparr>Event_eventData := ?upd r\<rparr>, ?s')"
    using a Apply_found [OF f, of ?upd] by (simp add: AckCancel_def Let_def)
  moreover have "FindId ?k ?s' = Some (?upd r)"
    using find_update_first_same [of row_id ?upd ?k "\<lambda>x. Asked (CancelInfo x)" "rows s" r] f a
    by (simp add: FindId_simps)
  moreover have "\<forall>k'. k' \<noteq> ?k \<longrightarrow> FindId k' ?s' = FindId k' s"
    using find_update_first_other [of row_id ?upd _ ?k "\<lambda>x. Asked (CancelInfo x)" "rows s"]
    by (simp add: FindId_simps FindId_def)
  ultimately show "\<exists>s'. AckCancel e now s = (None, e\<lparr>Event_eventData := ?upd r\<rparr>, s')
               \<and> FindId ?k s' = Some (?upd r)
               \<and> (\<forall>k'. k' \<noteq> ?k \<longrightarrow> FindId k' s' = FindId k' s)
               \<and> oplog s' = oplog s @ [OpApply ?k]"
    by (intro exI [of _ ?s']) simp
next
  let ?k = "eventId_GetBSON (ID (Event_eventData e))"
  let ?q = "\<lambda>x. row_id x = ?k \<and> Asked (CancelInfo x)"
  assume a: "Cancelable (Event_eventData e) \<and> Running (Event_eventData e) \<and> connErr s = None
       \<and> distinct (map row_id (rows s))
       \<and> (FindId ?k s = None \<or> (\<exists>r0. FindId ?k s = Some r0 \<and> \<not> Asked (CancelInfo r0)))"
  have "find ?q (rows s) = None"
  proof (cases "FindId ?k s")
    case None
    then show ?thesis by (simp add: FindId_def find_key_and_None)
  next
    case (Some r0)
    with a have "\<not> Asked (CancelInfo r0)" by auto
    with Some a show ?thesis
      using find_key_and [of row_id "rows s" ?k r0 "\<lambda>x. Asked (CancelInfo x)"]
      by (simp add: FindId_def)
  qed
  from Apply_missing [OF this] a
  show "AckCancel e now s = (Some ErrEventNotFound, e, s\<lparr>oplog := oplog s @ [OpApply ?k]\<rparr>)"
    by (simp add: AckCancel_def Let_def)
qed

theorem AckCancel_cases_witness:
  "AckCancel (ex_handle\<lparr>Event_eventData := ex_live\<lparr>Cancelable := False\<rparr>\<rparr>) 2000 ex_world
     = (Some ErrNotCancelable, ex_handle\<lparr>Event_eventData := ex_live\<lparr>Cancelable := False\<rparr>\<rparr>, ex_world)
   \<and> FindId (IdDoc ex_target) ex_world_asked = Some ex_asked \<and> Asked (CancelInfo ex_asked)
   \<and> fst (AckCancel ex_handle 2000 ex_world_asked) = None
   \<and> FindId (IdDoc ex_target) (snd (snd (AckCancel ex_handle 2000 ex_world_asked)))
       = Some (ex_asked\<lparr>CancelInfo := (CancelInfo ex_asked)\<lparr>AckTime := 2000, Canceled := True\<rparr>\<rparr>)
   \<and> FindId (IdDoc ex_target) ex_world = Some ex_live \<and> \<not> Asked (CancelInfo ex_live)
   \<and> AckCancel ex_handle 2000 ex_world
       = (Some ErrEventNotFound, ex_handle, ex_world\<lparr>oplog := [OpApply (IdDoc ex_target)]\<rparr>)"
proof -
  have k: "eventId_GetBSON (ID (Event_eventData ex_handle)) = IdDoc ex_target"
    by (simp add: ex_defs eventId_GetBSON_def)
  have c: "Cancelable (Event_eventData ex_handle) \<and> Running (Event_eventData ex_handle)"
    by (simp add: ex_defs)
  have f1: "FindId (IdDoc ex_target) ex_world_asked = Some ex_asked \<and> Asked (CancelInfo ex_asked)"
    and d1: "connErr ex_world_asked = None \<and> distinct (map row_id (rows ex_world_asked))"
    by (simp_all add: ex_defs ex_asked_def ex_world_asked_def FindId_def row_id_def
        eventId_GetBSON_def)
  have f2: "FindId (IdDoc ex_target) ex_world = Some ex_live \<and> \<not> Asked (CancelInfo ex_live)"
    and d2: "connErr ex_world = None \<and> distinct (map row_id (rows ex_world))"
    and o2: "oplog ex_world = []"
    by (simp_all add: ex_defs FindId_def row_id_def eventId_GetBSON_def cancelInfo_zero_def)
  have p1: "AckCancel (ex_handle\<lparr>Event_eventData := ex_live\<lparr>Cancelable := False\<rparr>\<rparr>) 2000 ex_world
     = (Some ErrNotCancelable, ex_handle\<lparr>Event_eventData := ex_live\<lparr>Cancelable := False\<rparr>\<rparr>, ex_world)"
    using AckCancel_cases [of "ex_handle\<lparr>Event_eventData := ex_live\<lparr>Cancelable := False\<rparr>\<rparr>"
        2000 ex_world ex_live]
    by simp
  have p2: "fst (AckCancel ex_handle 2000 ex_world_asked) = None
   \<and> FindId (IdDoc ex_target) (snd (snd (AckCancel ex_handle 2000 ex_world_asked)))
       = Some (ex_asked\<lparr>CancelInfo := (CancelInfo ex_asked)\<lparr>AckTime := 2000, Canceled := True\<rparr>\<rparr>)"
    using AckCancel_cases [of ex_handle 2000 ex_world_asked ex_asked] c f1 d1
    unfolding k by auto
  have p3: "AckCancel ex_handle 2000 ex_world
       = (Some ErrEventNotFound, ex_handle, ex_world\<lparr>oplog := [OpApply (IdDoc ex_target)]\<rparr>)"
    using AckCancel_cases [of ex_handle 2000 ex_world ex_live] c f2 d2
    unfolding k by (simp add: o2)
  from p1 p2 p3 f1 f2 show ?thesis by simp
qed

section \<open>Throttling\<close>

lemma New_is_newEvt:
  "\<not> (Opts_Owner opts = None \<and> Owner_Name (RawOwner opts) = [] \<and> Owner_Type (RawOwner opts) = [])
   \<Longrightarrow> Opts_Kind opts \<noteq> None \<Longrightarrow> New env (Some opts) s = newEvt env (Some opts) s"
  by (auto simp: New_def)

lemma NewInternal_is_newEvt:
  "Opts_Owner opts = None \<Longrightarrow> Opts_Kind opts = None \<Longrightarrow> InternalKind opts \<noteq> []
   \<Longrightarrow> NewInternal env (Some opts) s = newEvt env (Some opts) s"
  by (simp add: NewInternal_def)

lemma Insert_err: "fst (Insert d s) = Some e \<Longrightarrow> e = ErrDup (row_id d)"
  by (auto simp: Insert_def Let_def split: if_splits)

lemma newEvt_conflict_not_throttled:
  "e \<noteq> ErrThrottled a b \<Longrightarrow> fst (newEvt_conflict env evt i e s) \<noteq> Some (ErrThrottled a b)"
  by (simp add: newEvt_conflict_def Let_def split_beta split: option.splits)

lemma newEvt_loop_not_throttled:
  "err \<noteq> Some (ErrThrottled a b) \<Longrightarrow>
   snd (fst (newEvt_loop env opts evt i err s)) \<noteq> Some (ErrThrottled a b)"
proof (induction env opts evt i err s rule: newEvt_loop.induct)
  case (1 env opts evt i err s)
  show ?case
  proof (cases "i < maxRetries + 1")
    case False
    with "1.prems" show ?thesis by (simp add: newEvt_loop_exit)
  next
    case True
    obtain r1 s1 where ins: "Insert (Event_eventData evt) s = (r1, s1)" by force
    show ?thesis
    proof (cases r1)
      case None
      with ins True show ?thesis
        by (subst newEvt_loop.simps) simp
    next
      case (Some err1)
      obtain err2 s2 where con: "newEvt_conflict env evt i err1 s1 = (err2, s2)" by force
      have "err1 = ErrDup (row_id (Event_eventData evt))"
        using Insert_err [of "Event_eventData evt" s err1] ins Some by simp
      then have "err2 \<noteq> Some (ErrThrottled a b)"
        using newEvt_conflict_not_throttled [of err1 a b env evt i s1] con by simp
      moreover have "newEvt_loop env opts evt i err s = newEvt_loop env opts evt (i + 1) err2 s2"
        using True ins Some con by (subst newEvt_loop.simps) simp
      ultimately show ?thesis
        using "1.IH" [OF True ins [symmetric] Some con [symmetric]] by simp
    qed
  qed
qed

text \<open>
  Claim C6 as it is stated fails on a spec whose maximum is not positive: such a spec is
  found by the lookup but is skipped by the guard
  at line 447: with a maximum of 0 registered for the target's name, the count (0) is at
  least the maximum, and yet \<^verbatim>\<open>New\<close> succeeds and inserts the event.
\<close>

theorem newEvt_throttled_counterexample:
  "getThrottling (throttlingInfo ex_world_max0) (Opts_Target ex_opts) (New_kind ex_opts)
     = Some (ex_spec 0)
   \<and> Count (throttle_query (Opts_Target ex_opts) (ex_spec 0) (tThrottle (ex_env 1000))) ex_world_max0
       \<ge> Spec_Max (ex_spec 0)
   \<and> snd (fst (New (ex_env 1000) (Some ex_opts) ex_world_max0)) = None
   \<and> rows ex_world_max0 = []
   \<and> map UniqueID (rows (snd (New (ex_env 1000) (Some ex_opts) ex_world_max0))) = [''e00000000002'']"
  by (simp add: ex_defs ex_world_max0_def ex_spec_def SetThrottling_def getThrottling_def
      New_kind_def Count_def New_def newEvt_def newEvt_kind_def newEvt_throttle_def
      Target_IsValid_def newEvt_draft_def Let_def 
      newEvt_loop.simps [of _ _ _ 0] maxRetries_def Insert_def row_id_def eventId_GetBSON_def)

text \<open>
  Claim C6, amended. The spec is looked up under the key \<open>target name _ kind name\<close> first
  and under the target's name otherwise, and without an entry there is none. When the
  spec found has a positive \<^verbatim>\<open>Max\<close> and a positive \<^verbatim>\<open>Time\<close>, and the number of events with
  the same target (and with the spec's kind name, when it has one) whose start time is
  later than now minus \<^verbatim>\<open>Time\<close> is at least \<^verbatim>\<open>Max\<close>, creation fails with \<^verbatim>\<open>ErrThrottled\<close>
  carrying that spec and the target, and the state is returned as it was: nothing is
  inserted and no request is sent. When the spec found has a \<^verbatim>\<open>Max\<close> or a \<^verbatim>\<open>Time\<close> that is
  not positive, and when no spec is found, there is no throttling: creation goes on to
  the insert loop and does not return \<^verbatim>\<open>ErrThrottled\<close>.
\<close>

theorem newEvt_throttled:
  "getThrottling info t k =
     (case info (Target_Name t @ ''_'' @ kind_Name k) of
        Some sp \<Rightarrow> Some sp
      | None \<Rightarrow> info (Target_Name t))
   \<and> (Target_IsValid (Opts_Target opts) \<and> newEvt_kind opts = Inr k' \<and> connErr s = None
       \<and> getThrottling (throttlingInfo s) (Opts_Target opts) k' = Some sp
       \<and> Spec_Max sp > 0 \<and> Spec_Time sp > 0
       \<and> Count (throttle_query (Opts_Target opts) sp (tThrottle env)) s \<ge> Spec_Max sp
      \<longrightarrow> newEvt env (Some opts) s = ((None, Some (ErrThrottled sp (Opts_Target opts))), s))
   \<and> (Target_IsValid (Opts_Target opts) \<and> newEvt_kind opts = Inr k' \<and> connErr s = None
       \<and> getThrottling (throttlingInfo s) (Opts_Target opts) k' = Some sp
       \<and> (Spec_Max sp \<le> 0 \<or> Spec_Time sp \<le> 0)
      \<longrightarrow> newEvt env (Some opts) s
            = newEvt_loop env opts (newEvt_draft env opts k' (newEvt_owner opts)) 0 None s
        \<and> snd (fst (newEvt env (Some opts) s)) \<noteq> Some (ErrThrottled sp' t'))
   \<and> (Target_IsValid (Opts_Target opts) \<and> newEvt_kind opts = Inr k' \<and> connErr s = None
       \<and> getThrottling (throttlingInfo s) (Opts_Target opts) k' = None
      \<longrightarrow> newEvt env (Some opts) s
            = newEvt_loop env opts (newEvt_draft env opts k' (newEvt_owner opts)) 0 None s
        \<and> snd (fst (newEvt env (Some opts) s)) \<noteq> Some (ErrThrottled sp' t'))
   \<and> Count (throttle_query t sp now) s =
       int (length (filter (\<lambda>r. Target r = t \<and> now - Spec_Time sp < StartTime r
                                \<and> (KindName sp = [] \<or> kind_Name (Kind r) = KindName sp))
                      (rows s)))"
proof (intro conjI impI)
  show "getThrottling info t k =
     (case info (Target_Name t @ ''_'' @ kind_Name k) of
        Some sp \<Rightarrow> Some sp
      | None \<Rightarrow> info (Target_Name t))"
    by (simp add: getThrottling_def Let_def split: option.splits)
next
  assume "Target_IsValid (Opts_Target opts) \<and> newEvt_kind opts = Inr k' \<and> connErr s = None
       \<and> getThrottling (throttlingInfo s) (Opts_Target opts) k' = Some sp
       \<and> Spec_Max sp > 0 \<and> Spec_Time sp > 0
       \<and> Count (throttle_query (Opts_Target opts) sp (tThrottle env)) s \<ge> Spec_Max sp"
  then show "newEvt env (Some opts) s = ((None, Some (ErrThrottled sp (Opts_Target opts))), s)"
    by (simp add: newEvt_def newEvt_throttle_def Let_def)
next
  assume a: "Target_IsValid (Opts_Target opts) \<and> newEvt_kind opts = Inr k' \<and> connErr s = None
       \<and> getThrottling (throttlingInfo s) (Opts_Target opts) k' = Some sp
       \<and> (Spec_Max sp \<le> 0 \<or> Spec_Time sp \<le> 0)"
  then show l: "newEvt env (Some opts) s
            = newEvt_loop env opts (newEvt_draft env opts k' (newEvt_owner opts)) 0 None s"
    by (auto simp: newEvt_def newEvt_throttle_def Let_def)
  show "snd (fst (newEvt env (Some opts) s)) \<noteq> Some (ErrThrottled sp' t')"
    unfolding l by (rule newEvt_loop_not_throttled) simp
next
  assume a: "Target_IsValid (Opts_Target opts) \<and> newEvt_kind opts = Inr k' \<and> connErr s = None
       \<and> getThrottling (throttlingInfo s) (Opts_Target opts) k' = None"
  then show l: "newEvt env (Some opts) s
            = newEvt_loop env opts (newEvt_draft env opts k' (newEvt_owner opts)) 0 None s"
    by (simp add: newEvt_def newEvt_throttle_def Let_def)
  show "snd (fst (newEvt env (Some opts) s)) \<noteq> Some (ErrThrottled sp' t')"
    unfolding l by (rule newEvt_loop_not_throttled) simp
next
  have "throttle_query t sp now =
          (\<lambda>r. Target r = t \<and> now - Spec_Time sp < StartTime r
                \<and> (KindName sp = [] \<or> kind_Name (Kind r) = KindName sp))"
    by (rule ext) (auto simp: throttle_query_def Target.equality)
  then show "Count (throttle_query t sp now) s =
       int (length (filter (\<lambda>r. Target r = t \<and> now - Spec_Time sp < StartTime r
                                \<and> (KindName sp = [] \<or> kind_Name (Kind r) = KindName sp))
                      (rows s)))"
    by (simp add: Count_def)
qed

theorem newEvt_throttled_witness:
  "Target_IsValid (Opts_Target ex_opts) \<and> newEvt_kind ex_opts = Inr (New_kind ex_opts)
   \<and> connErr ex_world_max2 = None
   \<and> getThrottling (throttlingInfo ex_world_max2) (Opts_Target ex_opts) (New_kind ex_opts)
       = Some (ex_spec 2)
   \<and> Count (throttle_query (Opts_Target ex_opts) (ex_spec 2) (tThrottle (ex_env 3000))) ex_world_max2
       = 2
   \<and> New (ex_env 3000) (Some ex_opts) ex_world_max2
       = ((None, Some (ErrThrottled (ex_spec 2) ex_target)), ex_world_max2)
   \<and> connErr ex_world_max0 = None
   \<and> getThrottling (throttlingInfo ex_world_max0) (Opts_Target ex_opts) (New_kind ex_opts)
       = Some (ex_spec 0)
   \<and> Spec_Max (ex_spec 0) \<le> 0
   \<and> snd (fst (newEvt (ex_env 3000) (Some ex_opts) ex_world_max0))
       \<noteq> Some (ErrThrottled (ex_spec 0) ex_target)
   \<and> connErr world0 = None
   \<and> getThrottling (throttlingInfo world0) (Opts_Target ex_opts) (New_kind ex_opts) = None
   \<and> snd (fst (newEvt (ex_env 3000) (Some ex_opts) world0))
       \<noteq> Some (ErrThrottled (ex_spec 0) ex_target)"
proof -
  have h1: "Target_IsValid (Opts_Target ex_opts)"
    and h2: "newEvt_kind ex_opts = Inr (New_kind ex_opts)"
    and h3: "connErr ex_world_max2 = None"
    and h4: "getThrottling (throttlingInfo ex_world_max2) (Opts_Target ex_opts) (New_kind ex_opts)
               = Some (ex_spec 2)"
    and h5: "Spec_Max (ex_spec 2) = 2 \<and> Spec_Time (ex_spec 2) > 0"
    and z3: "connErr ex_world_max0 = None"
    and z4: "getThrottling (throttlingInfo ex_world_max0) (Opts_Target ex_opts) (New_kind ex_opts)
               = Some (ex_spec 0)"
    and z5: "Spec_Max (ex_spec 0) \<le> 0"
    and n3: "connErr world0 = None"
    and n4: "getThrottling (throttlingInfo world0) (Opts_Target ex_opts) (New_kind ex_opts) = None"
    by (simp_all add: ex_defs ex_world_max2_def ex_world_max0_def ex_spec_def SetThrottling_def
        getThrottling_def New_kind_def newEvt_kind_def Target_IsValid_def)
  have h6: "Count (throttle_query (Opts_Target ex_opts) (ex_spec 2) (tThrottle (ex_env 3000)))
              ex_world_max2 = 2"
    by (simp add: ex_defs ex_world_max2_def ex_spec_def ex_finished_def Count_def throttle_query_def)
  have n: "New (ex_env 3000) (Some ex_opts) ex_world_max2
             = newEvt (ex_env 3000) (Some ex_opts) ex_world_max2"
    by (rule New_is_newEvt) (simp_all add: ex_opts_def)
  have t: "Opts_Target ex_opts = ex_target" by (simp add: ex_opts_def)
  from newEvt_throttled [of _ _ _ ex_opts "New_kind ex_opts" ex_world_max2 "ex_spec 2" "ex_env 3000"]
    h1 h2 h3 h4 h5 h6
  have p1: "newEvt (ex_env 3000) (Some ex_opts) ex_world_max2
          = ((None, Some (ErrThrottled (ex_spec 2) (Opts_Target ex_opts))), ex_world_max2)"
    by simp
  from newEvt_throttled [of _ _ _ ex_opts "New_kind ex_opts" ex_world_max0 "ex_spec 0" "ex_env 3000"
      "ex_spec 0" ex_target] h1 h2 z3 z4 z5
  have p2: "snd (fst (newEvt (ex_env 3000) (Some ex_opts) ex_world_max0))
              \<noteq> Some (ErrThrottled (ex_spec 0) ex_target)"
    by blast
  from newEvt_throttled [of _ _ _ ex_opts "New_kind ex_opts" world0 _ "ex_env 3000"
      "ex_spec 0" ex_target] h1 h2 n3 n4
  have p3: "snd (fst (newEvt (ex_env 3000) (Some ex_opts) world0))
              \<noteq> Some (ErrThrottled (ex_spec 0) ex_target)"
    by blast
  from h1 h2 h3 h4 h6 n p1 p2 p3 z3 z4 z5 n3 n4 show ?thesis by (simp add: t)
qed

section \<open>Kind and owner of a created event\<close>

lemma newEvt_created:
  assumes "newEvt env (Some opts) s = ((Some e, None), s')"
  shows "\<exists>k. newEvt_kind opts = Inr k \<and> e = newEvt_draft env opts k (newEvt_owner opts)"
proof (cases "newEvt_kind opts")
  case (Inl err)
  with assms show ?thesis by (simp add: newEvt_def split: if_splits)
next
  case (Inr k)
  let ?evt = "newEvt_draft env opts k (newEvt_owner opts)"
  from assms Inr have "newEvt_loop env opts ?evt 0 None s = ((Some e, None), s')"
    by (simp add: newEvt_def split: if_splits option.splits)
  with newEvt_loop_shape [of env opts ?evt 0 None s] have "e = ?evt" by auto
  with Inr show ?thesis by simp
qed

lemma draft_kind_owner:
  "Kind (Event_eventData (newEvt_draft env opts k ow)) = k"
  "Owner (Event_eventData (newEvt_draft env opts k ow)) = ow"
  by (simp_all add: newEvt_draft_def Let_def)

text \<open>
  Claim C4 as it is stated fails on both counts.
  \<^verbatim>\<open>New\<close> rejects the options only when there is no token and \<^verbatim>\<open>RawOwner\<close> has neither a
  type nor a name, while \<^verbatim>\<open>newEvt\<close> uses \<^verbatim>\<open>RawOwner\<close> only when it has both: with a type and
  no name the event gets a permission kind and the internal owner. \<^verbatim>\<open>NewInternal\<close> does
  not look at \<^verbatim>\<open>RawOwner\<close>, and \<^verbatim>\<open>newEvt\<close> copies a full one: the event gets an internal
  kind and a user as its owner.
\<close>

theorem created_kind_owner_counterexample:
  "map_option (Kind \<circ> Event_eventData) (fst (fst (New (ex_env 1000) (Some ex_opts_half_owner) world0)))
     = Some \<lparr>kind_Type = KindTypePermission, kind_Name = ''app.update''\<rparr>
   \<and> map_option (Owner \<circ> Event_eventData)
         (fst (fst (New (ex_env 1000) (Some ex_opts_half_owner) world0)))
     = Some \<lparr>Owner_Type = OwnerTypeInternal, Owner_Name = []\<rparr>
   \<and> map_option (Kind \<circ> Event_eventData)
         (fst (fst (NewInternal (ex_env 1000)
            (Some (ex_opts_internal \<lparr>Owner_Type = OwnerTypeUser, Owner_Name = ''bob''\<rparr>)) world0)))
     = Some \<lparr>kind_Type = KindTypeInternal, kind_Name = ''healer''\<rparr>
   \<and> map_option (Owner \<circ> Event_eventData)
         (fst (fst (NewInternal (ex_env 1000)
            (Some (ex_opts_internal \<lparr>Owner_Type = OwnerTypeUser, Owner_Name = ''bob''\<rparr>)) world0)))
     = Some \<lparr>Owner_Type = OwnerTypeUser, Owner_Name = ''bob''\<rparr>"
  by (simp add: ex_defs ex_opts_half_owner_def ex_opts_internal_def New_def NewInternal_def
      newEvt_def newEvt_kind_def newEvt_owner_def newEvt_throttle_def getThrottling_def
      Target_IsValid_def OwnerTypeUser_def Let_def
      newEvt_loop.simps [of _ _ _ 0] maxRetries_def Insert_def row_id_def eventId_GetBSON_def
      newEvt_draft_def)

text \<open>
  Claim C4, amended. An event created by \<^verbatim>\<open>New\<close> has a permission kind; when the options
  carry a token its owner is a user or an app, so not internal. An event created by
  \<^verbatim>\<open>NewInternal\<close> has an internal kind; when \<^verbatim>\<open>RawOwner\<close> lacks its type or its name the
  owner is the internal owner, so not a user or an app. When there is no token and
  \<^verbatim>\<open>RawOwner\<close> has both a type and a name, the owner of the event is \<^verbatim>\<open>RawOwner\<close> as given,
  with either kind.
\<close>

theorem created_kind_owner:
  "(New env (Some opts) s = ((Some e, None), s')
      \<longrightarrow> kind_Type (Kind (Event_eventData e)) = KindTypePermission
        \<and> (Opts_Owner opts \<noteq> None
             \<longrightarrow> Owner_Type (Owner (Event_eventData e)) = OwnerTypeUser
               \<or> Owner_Type (Owner (Event_eventData e)) = OwnerTypeApp)
        \<and> (Opts_Owner opts = None \<and> Owner_Name (RawOwner opts) \<noteq> []
             \<and> Owner_Type (RawOwner opts) \<noteq> []
             \<longrightarrow> Owner (Event_eventData e) = RawOwner opts))
   \<and> (NewInternal env (Some opts) s = ((Some e, None), s')
      \<longrightarrow> kind_Type (Kind (Event_eventData e)) = KindTypeInternal
        \<and> (Owner_Name (RawOwner opts) = [] \<or> Owner_Type (RawOwner opts) = []
             \<longrightarrow> Owner (Event_eventData e) = \<lparr>Owner_Type = OwnerTypeInternal, Owner_Name = []\<rparr>)
        \<and> (Owner_Name (RawOwner opts) \<noteq> [] \<and> Owner_Type (RawOwner opts) \<noteq> []
             \<longrightarrow> Owner (Event_eventData e) = RawOwner opts))"
proof (intro conjI impI)
  assume a: "New env (Some opts) s = ((Some e, None), s')"
  then have k: "Opts_Kind opts \<noteq> None" and n: "newEvt env (Some opts) s = ((Some e, None), s')"
    by (auto simp: New_def split: if_splits)
  from newEvt_created [OF n] New_kind_eq [OF k]
  have e: "e = newEvt_draft env opts (New_kind opts) (newEvt_owner opts)" by auto
  show "kind_Type (Kind (Event_eventData e)) = KindTypePermission"
    by (simp add: e draft_kind_owner New_kind_def)
  { assume "Opts_Owner opts \<noteq> None"
    then show "Owner_Type (Owner (Event_eventData e)) = OwnerTypeUser
               \<or> Owner_Type (Owner (Event_eventData e)) = OwnerTypeApp"
      by (auto simp: e draft_kind_owner newEvt_owner_def) }
  { assume "Opts_Owner opts = None \<and> Owner_Name (RawOwner opts) \<noteq> []
             \<and> Owner_Type (RawOwner opts) \<noteq> []"
    then show "Owner (Event_eventData e) = RawOwner opts"
      by (simp add: e draft_kind_owner newEvt_owner_def) }
next
  assume a: "NewInternal env (Some opts) s = ((Some e, None), s')"
  then have o: "Opts_Owner opts = None" and k: "Opts_Kind opts = None"
    and i: "InternalKind opts \<noteq> []"
    and n: "newEvt env (Some opts) s = ((Some e, None), s')"
    by (auto simp: NewInternal_def ErrInvalidOwner_def split: if_splits)
  from k i have "newEvt_kind opts = Inr \<lparr>kind_Type = KindTypeInternal, kind_Name = InternalKind opts\<rparr>"
    by (simp add: newEvt_kind_def)
  with newEvt_created [OF n]
  have e: "e = newEvt_draft env opts \<lparr>kind_Type = KindTypeInternal, kind_Name = InternalKind opts\<rparr>
                 (newEvt_owner opts)" by auto
  show "kind_Type (Kind (Event_eventData e)) = KindTypeInternal"
    by (simp add: e draft_kind_owner)
  { assume "Owner_Name (RawOwner opts) = [] \<or> Owner_Type (RawOwner opts) = []"
    then show "Owner (Event_eventData e) = \<lparr>Owner_Type = OwnerTypeInternal, Owner_Name = []\<rparr>"
      by (auto simp: e draft_kind_owner newEvt_owner_def o) }
  { assume "Owner_Name (RawOwner opts) \<noteq> [] \<and> Owner_Type (RawOwner opts) \<noteq> []"
    then show "Owner (Event_eventData e) = RawOwner opts"
      by (simp add: e draft_kind_owner newEvt_owner_def o) }
qed

lemma New_world0:
  "Target_IsValid (Opts_Target opts) \<Longrightarrow> newEvt_kind opts = Inr k \<Longrightarrow>
   newEvt env (Some opts) world0 =
     ((Some (newEvt_draft env opts k (newEvt_owner opts)), None),
      world0\<lparr>oplog := [OpInsert (IdDoc (Opts_Target opts))],
             rows := [Event_eventData (newEvt_draft env opts k (newEvt_owner opts))],
             sent := [MsgAdd (Opts_Target opts)]\<rparr>)"
  using newEvt_loop_ok [of 0 "newEvt_draft env opts k (newEvt_owner opts)" world0 env opts None]
  by (simp add: newEvt_def newEvt_throttle_def getThrottling_def world0_def draft_fields
      FindId_def maxRetries_def stored_draft)

theorem created_kind_owner_witness:
  "(\<exists>e s'. New (ex_env 1000) (Some ex_opts) world0 = ((Some e, None), s')
      \<and> Kind (Event_eventData e) = \<lparr>kind_Type = KindTypePermission, kind_Name = ''app.update''\<rparr>
      \<and> Owner_Type (Owner (Event_eventData e)) = OwnerTypeUser)
   \<and> (\<exists>e s'. New (ex_env 1000)
                (Some (ex_opts\<lparr>Opts_Owner := None,
                                RawOwner := \<lparr>Owner_Type = OwnerTypeApp, Owner_Name = ''web''\<rparr>\<rparr>))
                world0 = ((Some e, None), s')
      \<and> kind_Type (Kind (Event_eventData e)) = KindTypePermission
      \<and> Owner (Event_eventData e) = \<lparr>Owner_Type = OwnerTypeApp, Owner_Name = ''web''\<rparr>)
   \<and> (\<exists>e s'. NewInternal (ex_env 1000)
                (Some (ex_opts_internal \<lparr>Owner_Type = [], Owner_Name = []\<rparr>)) world0
              = ((Some e, None), s')
      \<and> kind_Type (Kind (Event_eventData e)) = KindTypeInternal
      \<and> Owner (Event_eventData e) = \<lparr>Owner_Type = OwnerTypeInternal, Owner_Name = []\<rparr>)
   \<and> (\<exists>e s'. NewInternal (ex_env 1000)
                (Some (ex_opts_internal \<lparr>Owner_Type = OwnerTypeInternal, Owner_Name = ''healer''\<rparr>))
                world0 = ((Some e, None), s')
      \<and> kind_Type (Kind (Event_eventData e)) = KindTypeInternal
      \<and> Owner (Event_eventData e) = \<lparr>Owner_Type = OwnerTypeInternal, Owner_Name = ''healer''\<rparr>)"
proof -
  let ?env = "ex_env 1000"
  let ?o2 = "ex_opts\<lparr>Opts_Owner := None,
                       RawOwner := \<lparr>Owner_Type = OwnerTypeApp, Owner_Name = ''web''\<rparr>\<rparr>"
  let ?o3 = "ex_opts_internal \<lparr>Owner_Type = [], Owner_Name = []\<rparr>"
  let ?o4 = "ex_opts_internal \<lparr>Owner_Type = OwnerTypeInternal, Owner_Name = ''healer''\<rparr>"
  have n1: "\<exists>e s'. New ?env (Some ex_opts) world0 = ((Some e, None), s')"
    using New_world0 [of ex_opts "New_kind ex_opts" ?env]
    by (simp add: New_def ex_opts_def ex_target_def Target_IsValid_def newEvt_kind_def New_kind_def)
  have n2: "\<exists>e s'. New ?env (Some ?o2) world0 = ((Some e, None), s')"
    using New_world0 [of ?o2 "New_kind ?o2" ?env]
    by (simp add: New_def ex_opts_def ex_target_def Target_IsValid_def newEvt_kind_def New_kind_def
        OwnerTypeApp_def)
  have n3: "\<exists>e s'. NewInternal ?env (Some ?o3) world0 = ((Some e, None), s')"
    using New_world0 [of ?o3 "\<lparr>kind_Type = KindTypeInternal, kind_Name = ''healer''\<rparr>" ?env]
    by (simp add: NewInternal_def ex_opts_internal_def ex_opts_def ex_target_def
        Target_IsValid_def newEvt_kind_def)
  have n4: "\<exists>e s'. NewInternal ?env (Some ?o4) world0 = ((Some e, None), s')"
    using New_world0 [of ?o4 "\<lparr>kind_Type = KindTypeInternal, kind_Name = ''healer''\<rparr>" ?env]
    by (simp add: NewInternal_def ex_opts_internal_def ex_opts_def ex_target_def
        Target_IsValid_def newEvt_kind_def)
  from n1 obtain e1 s1 where r1: "New ?env (Some ex_opts) world0 = ((Some e1, None), s1)" by blast
  from n2 obtain e2 s2 where r2: "New ?env (Some ?o2) world0 = ((Some e2, None), s2)" by blast
  from n3 obtain e3 s3 where r3: "NewInternal ?env (Some ?o3) world0 = ((Some e3, None), s3)" by blast
  from n4 obtain e4 s4 where r4: "NewInternal ?env (Some ?o4) world0 = ((Some e4, None), s4)" by blast
  have k1: "Kind (Event_eventData e1) = \<lparr>kind_Type = KindTypePermission, kind_Name = ''app.update''\<rparr>"
    using r1 newEvt_created [of ?env ex_opts world0 e1 s1]
    by (auto simp: New_def ex_opts_def newEvt_kind_def draft_kind_owner split: if_splits)
  have c1: "Owner_Type (Owner (Event_eventData e1)) = OwnerTypeUser"
    using created_kind_owner [of ?env ex_opts world0 e1 s1] r1
      newEvt_created [of ?env ex_opts world0 e1 s1]
    by (auto simp: New_def ex_opts_def newEvt_owner_def draft_kind_owner split: if_splits)
  have c2: "kind_Type (Kind (Event_eventData e2)) = KindTypePermission
            \<and> Owner (Event_eventData e2) = \<lparr>Owner_Type = OwnerTypeApp, Owner_Name = ''web''\<rparr>"
    using created_kind_owner [of ?env ?o2 world0 e2 s2] r2
    by (simp add: OwnerTypeApp_def)
  have c3: "kind_Type (Kind (Event_eventData e3)) = KindTypeInternal
            \<and> Owner (Event_eventData e3) = \<lparr>Owner_Type = OwnerTypeInternal, Owner_Name = []\<rparr>"
    using created_kind_owner [of ?env ?o3 world0 e3 s3] r3
    by (simp add: ex_opts_internal_def)
  have c4: "kind_Type (Kind (Event_eventData e4)) = KindTypeInternal
            \<and> Owner (Event_eventData e4) = \<lparr>Owner_Type = OwnerTypeInternal, Owner_Name = ''healer''\<rparr>"
    using created_kind_owner [of ?env ?o4 world0 e4 s4] r4
    by (simp add: ex_opts_internal_def OwnerTypeInternal_def)
  from r1 k1 c1 r2 c2 r3 c3 r4 c4 show ?thesis by blast
qed

section \<open>Invariants: the ids of the store stay unique\<close>

lemma find_None_notin: "find (\<lambda>r. f r = k) xs = None \<Longrightarrow> k \<notin> f ` set xs"
  by (induction xs) (auto split: if_splits)

lemma map_update_first_key:
  assumes "\<And>x. f (g x) = f x"
  shows "map f (update_first P g xs) = map f xs"
  by (induction xs) (auto simp: assms)

lemma set_remove_first: "set (remove_first P xs) \<subseteq> set xs"
  by (induction xs) auto

lemma distinct_remove_first:
  "distinct (map f xs) \<Longrightarrow> distinct (map f (remove_first P xs))"
proof (induction xs)
  case Nil
  then show ?case by simp
next
  case (Cons x xs)
  then show ?case using set_remove_first [of P xs] by auto
qed

lemma Insert_unique: "unique_ids s \<Longrightarrow> unique_ids (snd (Insert d s))"
proof (cases "FindId (row_id d) s")
  case None
  assume "unique_ids s"
  moreover from None have "row_id d \<notin> row_id ` set (rows s)"
    by (simp add: FindId_def find_None_notin)
  ultimately show ?thesis
    using None by (simp add: Insert_ok unique_ids_def row_id_def GetBSON_SetBSON)
next
  case (Some r)
  assume "unique_ids s"
  then show ?thesis using Some by (simp add: Insert_dup unique_ids_def)
qed

lemma RemoveId_unique: "unique_ids s \<Longrightarrow> unique_ids (snd (RemoveId k s))"
  by (simp add: RemoveId_eq unique_ids_def distinct_remove_first)

lemma unique_ids_simps [simp]:
  "unique_ids (s\<lparr>sent := x\<rparr>) = unique_ids s"
  "unique_ids (s\<lparr>oplog := y\<rparr>) = unique_ids s"
  by (simp_all add: unique_ids_def)

lemma Event_done_unique:
  "unique_ids s \<Longrightarrow> unique_ids (snd (snd (Event_done e evtErr cd ab now s)))"
  by (simp add: Event_done_def Let_def split_beta Insert_unique RemoveId_unique
      split: option.splits)

lemma checkIsExpired_unique: "unique_ids s \<Longrightarrow> unique_ids (snd (checkIsExpired env s eid))"
  by (simp add: checkIsExpired_def Let_def split_beta Done_def Event_done_unique
      split: option.splits)

lemma newEvt_conflict_unique:
  "unique_ids s \<Longrightarrow> unique_ids (snd (newEvt_conflict env evt i e s))"
  using checkIsExpired_unique [of s env "ID (Event_eventData evt)"]
  by (simp add: newEvt_conflict_def Let_def split_beta split: option.splits)

lemma newEvt_loop_unique:
  "unique_ids s \<Longrightarrow> unique_ids (snd (newEvt_loop env opts evt i err s))"
proof (induction env opts evt i err s rule: newEvt_loop.induct)
  case (1 env opts evt i err s)
  show ?case
  proof (cases "i < maxRetries + 1")
    case False
    with "1.prems" show ?thesis by (simp add: newEvt_loop_exit)
  next
    case True
    obtain r1 s1 where ins: "Insert (Event_eventData evt) s = (r1, s1)" by force
    have u1: "unique_ids s1" using Insert_unique [OF "1.prems", of "Event_eventData evt"] ins by simp
    show ?thesis
    proof (cases r1)
      case None
      with ins True u1 show ?thesis
        by (subst newEvt_loop.simps) simp
    next
      case (Some err1)
      obtain err2 s2 where con: "newEvt_conflict env evt i err1 s1 = (err2, s2)" by force
      have u2: "unique_ids s2" using newEvt_conflict_unique [OF u1, of env evt i err1] con by simp
      have step: "newEvt_loop env opts evt i err s = newEvt_loop env opts evt (i + 1) err2 s2"
        using True ins Some con by (subst newEvt_loop.simps) simp
      from "1.IH" [OF True ins [symmetric] Some con [symmetric] u2] show ?thesis
        by (simp add: step)
    qed
  qed
qed

lemma newEvt_unique: "unique_ids s \<Longrightarrow> unique_ids (snd (newEvt env optsp s))"
  by (simp add: newEvt_def newEvt_loop_unique split: option.splits sum.splits)

lemma New_unique: "unique_ids s \<Longrightarrow> unique_ids (snd (New env optsp s))"
  by (simp add: New_def newEvt_unique split: option.splits)

lemma NewInternal_unique: "unique_ids s \<Longrightarrow> unique_ids (snd (NewInternal env optsp s))"
  by (simp add: NewInternal_def newEvt_unique split: option.splits)

lemma Apply_unique:
  assumes "\<And>r. row_id (upd r) = row_id r"
  shows "unique_ids s \<Longrightarrow> unique_ids (snd (Apply k sel upd s))"
  by (simp add: Apply_def Let_def unique_ids_def map_update_first_key assms split: option.splits)

lemma TryCancel_unique: "unique_ids s \<Longrightarrow> unique_ids (snd (snd (TryCancel e reason owner now s)))"
  using Apply_unique [of "\<lambda>r. r\<lparr>CancelInfo :=
                              \<lparr>cancel_Owner = owner, cancel_StartTime = now, AckTime = 0,
                               Reason = reason, Asked = True, Canceled = False\<rparr>\<rparr>" s
        "eventId_GetBSON (ID (Event_eventData e))" "\<lambda>r. True"]
  by (auto simp: TryCancel_def Let_def split: option.splits prod.splits)

lemma AckCancel_unique: "unique_ids s \<Longrightarrow> unique_ids (snd (snd (AckCancel e now s)))"
  using Apply_unique [of "\<lambda>r. r\<lparr>CancelInfo := (CancelInfo r)\<lparr>AckTime := now, Canceled := True\<rparr>\<rparr>" s
        "eventId_GetBSON (ID (Event_eventData e))" "\<lambda>r. Asked (CancelInfo r)"]
  by (auto simp: AckCancel_def Let_def split: option.splits prod.splits)

lemma spin_body_unique: "unique_ids s \<Longrightarrow> unique_ids (snd (spin_body w now held s))"
  by (simp add: spin_body_def Update_def Let_def split_beta unique_ids_def map_update_first_key
      row_id_def split: option.splits)

lemma world0_unique: "unique_ids world0"
  by (simp add: unique_ids_def world0_def)

text \<open>Every handle that \<^verbatim>\<open>newEvt\<close> returns is a handle on a running event.\<close>

lemma newEvt_live_handle:
  assumes "newEvt env (Some opts) s = ((Some e, None), s')" and "NewObjectId env \<noteq> []"
  shows "live_handle e \<and> logBuffer e = []"
proof -
  from newEvt_created [OF assms(1)] obtain k where "e = newEvt_draft env opts k (newEvt_owner opts)"
    by blast
  with assms(2) show ?thesis
    by (simp add: live_handle_def newEvt_draft_def Let_def)
qed

section \<open>The lock updater: what a wake refreshes\<close>

text \<open>
  Claim C5 says that every wake of the lock updater refreshes the live rows of all
  held targets. The loop sends one request per wake, and its selector does name every
  held target, but the request is \<^verbatim>\<open>coll.Update\<close>, which changes a single document: with two
  targets held and both rows live, a wake sets \<^verbatim>\<open>lockUpdateTime\<close> on the first row and
  leaves the second as it was. (\<^verbatim>\<open>MarkAsRemoved\<close>, which is meant to change many rows, calls
  \<^verbatim>\<open>UpdateAll\<close>.)
\<close>

theorem spin_body_refreshes_one_row:
  "spin_body TimedOut 5000 {ex_target, ex_target2} ex_world_two
     = ({ex_target, ex_target2},
        ex_world_two\<lparr>oplog := [OpUpdate],
                     rows := [ex_live\<lparr>LockUpdateTime := 5000\<rparr>, ex_live2]\<rparr>)
   \<and> LockUpdateTime ex_live2 = 1000"
  by (simp add: spin_body_def Update_def ex_world_two_def ex_live2_def ex_defs row_id_def
      eventId_GetBSON_def ex_target2_def Let_def)

text \<open>Whatever the wake and the set of held targets, at most one row differs afterwards.\<close>

lemma zip_same_no_change: "filter (\<lambda>(a, b). a \<noteq> b) (zip xs xs) = []"
  by (induction xs) auto

lemma update_first_changes_one:
  "length (filter (\<lambda>(a, b). a \<noteq> b) (zip xs (update_first P f xs))) \<le> 1"
  by (induction xs) (auto simp: zip_same_no_change)

lemma spin_body_changes_one:
  "length (filter (\<lambda>(a, b). a \<noteq> b) (zip (rows s) (rows (snd (spin_body w now held s))))) \<le> 1"
  using update_first_changes_one [of "rows s" _ "\<lambda>r. r\<lparr>LockUpdateTime := now\<rparr>"]
  by (simp add: spin_body_def Update_def Let_def split_beta zip_same_no_change
      split: option.splits)

section \<open>Listing events: defaults and raw entries\<close>

lemma toQuery_Raw: "Raw f = Some raw \<Longrightarrow> raw k = Some v \<Longrightarrow> toQuery f k = Some v"
  by (simp add: toQuery_def Let_def map_add_Some_iff)

lemma List_find_nil: "List_find None = \<lparr>q_selector = None, q_sort = ''-starttime'', q_limit = Some 100, q_skip = None\<rparr>"
  by (simp add: List_find_def)

lemma List_find_filter:
  "List_find (Some f) =
     \<lparr>q_selector = Some (toQuery f),
      q_sort = (if Sort f \<noteq> [] then Sort f else ''-starttime''),
      q_limit = (if Limit f = 0 then Some 100 else if Limit f > 0 then Some (Limit f) else None),
      q_skip = (if Skip f > 0 then Some (Skip f) else None)\<rparr>"
  by (simp add: List_find_def Let_def)

lemma List_eq:
  "connErr s = None \<Longrightarrow> List sem srt fltr s = (Some (map Event_of (find_All sem srt (List_find fltr) s)), None)"
  by (simp add: List_def Let_def)

lemma find_All_filter:
  "find_All sem srt (List_find (Some f)) s =
     (let found = drop (nat (Skip f))
                    (srt (if Sort f \<noteq> [] then Sort f else ''-starttime'')
                       (filter (sem (toQuery f)) (rows s)))
      in if Limit f = 0 then take 100 found
         else if Limit f > 0 then take (nat (Limit f)) found
         else found)"
  by (simp add: find_All_def List_find_filter Let_def)

text \<open>
  Claim C8. Without a filter, and with a filter whose \<^verbatim>\<open>Limit\<close> is 0, the query that \<^verbatim>\<open>List\<close>
  runs has the limit 100; without a filter, and with a filter whose \<^verbatim>\<open>Sort\<close> is empty, its
  sort key is \<open>-starttime\<close> (start time, descending). The selector is the filter's
  \<^verbatim>\<open>toQuery\<close>, in which every entry of \<^verbatim>\<open>Raw\<close> is found under its key, whatever the other
  fields of the filter put there. With the store reachable, \<^verbatim>\<open>List\<close> returns accordingly
  the first 100 of the selected rows in that order, after the skip.
\<close>

theorem List_defaults:
  "q_limit (List_find None) = Some 100 \<and> q_sort (List_find None) = ''-starttime''
   \<and> (Limit f = 0 \<longrightarrow> q_limit (List_find (Some f)) = Some 100)
   \<and> (Sort f = [] \<longrightarrow> q_sort (List_find (Some f)) = ''-starttime'')
   \<and> q_selector (List_find (Some f)) = Some (toQuery f)
   \<and> (Raw f = Some raw \<and> raw k = Some v \<longrightarrow> toQuery f k = Some v)
   \<and> (connErr s = None
       \<longrightarrow> List sem srt None s
           = (Some (map Event_of (take 100 (srt ''-starttime'' (rows s)))), None))
   \<and> (connErr s = None \<and> Limit f = 0 \<and> Sort f = []
       \<longrightarrow> List sem srt (Some f) s
           = (Some (map Event_of
                (take 100 (drop (nat (Skip f))
                   (srt ''-starttime'' (filter (sem (toQuery f)) (rows s)))))), None))"
proof (intro conjI impI)
  show "q_limit (List_find None) = Some 100" "q_sort (List_find None) = ''-starttime''"
    by (simp_all add: List_find_nil)
  show "q_selector (List_find (Some f)) = Some (toQuery f)"
    by (simp add: List_find_filter)
  show "q_limit (List_find (Some f)) = Some 100" if "Limit f = 0"
    using that by (simp add: List_find_filter)
  show "q_sort (List_find (Some f)) = ''-starttime''" if "Sort f = []"
    using that by (simp add: List_find_filter)
  show "toQuery f k = Some v" if "Raw f = Some raw \<and> raw k = Some v"
    using that by (simp add: toQuery_Raw)
  show "List sem srt None s = (Some (map Event_of (take 100 (srt ''-starttime'' (rows s)))), None)"
    if "connErr s = None"
    using that by (simp add: List_eq List_find_nil find_All_def)
  show "List sem srt (Some f) s
           = (Some (map Event_of
                (take 100 (drop (nat (Skip f))
                   (srt ''-starttime'' (filter (sem (toQuery f)) (rows s)))))), None)"
    if "connErr s = None \<and> Limit f = 0 \<and> Sort f = []"
    using that by (simp add: List_eq find_All_filter)
qed

text \<open>
  Claim C10. With a filter whose \<^verbatim>\<open>Limit\<close> is negative, the query that \<^verbatim>\<open>List\<close> runs has no
  limit, and \<^verbatim>\<open>List\<close> returns all the selected rows, sorted, after the skip. The limit of
  the query is 100 when \<^verbatim>\<open>Limit\<close> is 0, \<^verbatim>\<open>Limit\<close> itself when it is positive, and absent when
  it is negative.
\<close>

theorem List_negative_limit:
  "(Limit f < 0 \<longrightarrow> q_limit (List_find (Some f)) = None)
   \<and> (Limit f < 0 \<and> connErr s = None
       \<longrightarrow> List sem srt (Some f) s
           = (Some (map Event_of
                (drop (nat (Skip f))
                   (srt (if Sort f = [] then ''-starttime'' else Sort f)
                      (filter (sem (toQuery f)) (rows s))))), None))
   \<and> q_limit (List_find (Some f))
       = (if Limit f = 0 then Some 100 else if Limit f > 0 then Some (Limit f) else None)"
proof (intro conjI impI)
  show "q_limit (List_find (Some f)) = None" if "Limit f < 0"
    using that by (simp add: List_find_filter)
  show "List sem srt (Some f) s
           = (Some (map Event_of
                (drop (nat (Skip f))
                   (srt (if Sort f = [] then ''-starttime'' else Sort f)
                      (filter (sem (toQuery f)) (rows s))))), None)"
    if "Limit f < 0 \<and> connErr s = None"
    using that by (simp add: List_eq find_All_filter)
  show "q_limit (List_find (Some f))
       = (if Limit f = 0 then Some 100 else if Limit f > 0 then Some (Limit f) else None)"
    by (simp add: List_find_filter)
qed

theorem List_defaults_witness:
  "Limit ex_filter = 0 \<and> Sort ex_filter = []
   \<and> q_limit (List_find (Some ex_filter)) = Some 100
   \<and> q_sort (List_find (Some ex_filter)) = ''-starttime''
   \<and> Raw ex_filter = Some [''target.name'' \<mapsto> BStr ''node'']
   \<and> toQuery ex_filter ''target.name'' = Some (BStr ''node'')
   \<and> connErr ex_world_two = None
   \<and> List ex_sem ex_srt None ex_world_two
       = (Some (map Event_of (take 100 (ex_srt ''-starttime'' (rows ex_world_two)))), None)
   \<and> List ex_sem ex_srt (Some ex_filter) ex_world_two
       = (Some (map Event_of
            (take 100 (drop (nat (Skip ex_filter))
               (ex_srt ''-starttime''
                  (filter (ex_sem (toQuery ex_filter)) (rows ex_world_two)))))), None)"
proof -
  have h1: "Limit ex_filter = 0" and h2: "Sort ex_filter = []"
    and h3: "Raw ex_filter = Some [''target.name'' \<mapsto> BStr ''node'']"
    and h4: "[''target.name'' \<mapsto> BStr ''node''] ''target.name'' = Some (BStr ''node'')"
    and h5: "connErr ex_world_two = None"
    by (simp_all add: ex_filter_def ex_world_two_def world0_def)
  from List_defaults [of ex_filter "[''target.name'' \<mapsto> BStr ''node'']" "''target.name''"
      "BStr ''node''" ex_world_two ex_sem ex_srt] h1 h2 h3 h4 h5
  show ?thesis by simp
qed

theorem List_negative_limit_witness:
  "Limit (ex_filter\<lparr>Limit := - 1, Raw := None\<rparr>) < 0 \<and> connErr ex_world_two = None
   \<and> q_limit (List_find (Some (ex_filter\<lparr>Limit := - 1, Raw := None\<rparr>))) = None
   \<and> List ex_sem ex_srt (Some (ex_filter\<lparr>Limit := - 1, Raw := None\<rparr>)) ex_world_two
       = (Some [Event_of ex_live2, Event_of ex_live], None)"
proof -
  let ?f = "ex_filter\<lparr>Limit := - 1, Raw := None\<rparr>"
  have h1: "Limit ?f < 0" and h2: "connErr ex_world_two = None"
    by (simp_all add: ex_world_two_def world0_def)
  have q: "toQuery ?f = [''target.name'' \<mapsto> BStr ''app'', ''removedate'' \<mapsto> BDoc [(''$exists'', BBool False)]]"
    by (simp add: toQuery_def ex_filter_def Let_def)
  have r: "drop (nat (Skip ?f))
             (ex_srt (if Sort ?f = [] then ''-starttime'' else Sort ?f)
                (filter (ex_sem (toQuery ?f)) (rows ex_world_two)))
           = [ex_live2, ex_live]"
    unfolding q
    by (simp add: ex_filter_def ex_srt_def ex_sem_def ex_world_two_def world0_def ex_live2_def
        ex_live_def ex_target_def ex_target2_def)
  from List_negative_limit [of ?f ex_world_two ex_sem ex_srt] h1 h2
  show ?thesis unfolding r by simp
qed

section \<open>The throttling registry: colliding keys\<close>

lemma SetThrottling_spec_a_b: "SetThrottling (spec_a_b m d) info = info(''a_b'' \<mapsto> spec_a_b m d)"
  by (simp add: SetThrottling_def spec_a_b_def)

lemma SetThrottling_spec_ab: "SetThrottling (spec_ab m d) info = info(''a_b'' \<mapsto> spec_ab m d)"
  by (simp add: SetThrottling_def spec_ab_def)

text \<open>
  Claim C9. A spec for target name \<open>a\<close> and kind name \<open>b\<close> and a spec for target name
  \<open>a_b\<close> without a kind name are both stored under the registry key \<open>a_b\<close>. Registering
  one after the other leaves the registry as if only the later one had been registered,
  so every later lookup answers as for the later one alone; and a lookup for target \<open>a\<close>
  with kind \<open>b\<close> returns whichever of the two is stored, target-scoped or not.
\<close>

theorem SetThrottling_key_collision:
  "SetThrottling (spec_a_b m1 d1) info = info(''a_b'' \<mapsto> spec_a_b m1 d1)
   \<and> SetThrottling (spec_ab m2 d2) info = info(''a_b'' \<mapsto> spec_ab m2 d2)
   \<and> SetThrottling (spec_a_b m1 d1) (SetThrottling (spec_ab m2 d2) info)
       = SetThrottling (spec_a_b m1 d1) info
   \<and> SetThrottling (spec_ab m2 d2) (SetThrottling (spec_a_b m1 d1) info)
       = SetThrottling (spec_ab m2 d2) info
   \<and> getThrottling (SetThrottling (spec_a_b m1 d1) (SetThrottling (spec_ab m2 d2) info)) t k
       = getThrottling (SetThrottling (spec_a_b m1 d1) info) t k
   \<and> getThrottling (SetThrottling (spec_ab m2 d2) (SetThrottling (spec_a_b m1 d1) info)) t k
       = getThrottling (SetThrottling (spec_ab m2 d2) info) t k
   \<and> getThrottling (SetThrottling (spec_a_b m1 d1) info)
         \<lparr>Target_Name = ''a'', Target_Value = v\<rparr> \<lparr>kind_Type = ty, kind_Name = ''b''\<rparr>
       = Some (spec_a_b m1 d1)
   \<and> getThrottling (SetThrottling (spec_ab m2 d2) info)
         \<lparr>Target_Name = ''a'', Target_Value = v\<rparr> \<lparr>kind_Type = ty, kind_Name = ''b''\<rparr>
       = Some (spec_ab m2 d2)"
  by (simp add: SetThrottling_spec_a_b SetThrottling_spec_ab getThrottling_def)

end
